theory Spec2Isabelle
  imports Complex_Main "HOL-Library.AList"
begin

section \<open>Tensors, the object store and automatic differentiation\<close>

text \<open>
  The meta-learner of \<^verbatim>\<open>libbots/metalearner.py\<close> works on tensor objects that are
  shared by reference. A tensor object is identified by its position in the store
  (\<open>tid\<close>); a Python dict of tensors is an association list from names to such
  references. Tensor values range over a real vector space \<open>'v\<close>, so that
  \<open>a - step_size * g\<close> is \<open>a - step_size *\<^sub>R g\<close>; floating point is idealised to
  the reals.
\<close>

type_synonym tid = nat
type_synonym name = string

datatype error = TypeError | RuntimeError | IndexError | KeyError | AttributeError
  | InvalidTensor | NotANumber

text \<open>How a tensor was produced: by \<open>.to(device)\<close> from another tensor, or by
  \<open>w - step_size * g\<close>, where the flag says whether \<open>g\<close> carries a graph of its own.\<close>

datatype grad_fn = ToCopyBackward tid | SubBackward tid real bool

record 'v tensor =
  data :: 'v
  requires_grad :: bool
  device :: string
  grad_fn :: "grad_fn option"

text \<open>
  The world: the store of tensor objects (a reference is an index, allocation appends),
  the network's registered parameters (\<open>net.named_parameters()\<close>), the messages written
  with \<open>log.info\<close>, and the state \<open>'x\<close> of the external collaborators (gradient buffers,
  random number generators, optimizer moments).
\<close>

record ('v, 'x) world =
  heap :: "'v tensor list"
  net_params :: "(name \<times> tid) list"
  log_info :: "string list"
  ext :: 'x

definition fetch :: "('v, 'x) world \<Rightarrow> tid \<Rightarrow> 'v tensor option" where
  "fetch w t = (if t < length (heap w) then Some (heap w ! t) else None)"

definition alloc :: "'v tensor \<Rightarrow> ('v, 'x) world \<Rightarrow> tid \<times> ('v, 'x) world" where
  "alloc x w = (length (heap w), w\<lparr>heap := heap w @ [x]\<rparr>)"

text \<open>
  A loss is either the Python float that \<open>inner_loss\<close> returns for an empty policy
  list, or a scalar tensor: its value and, for every tensor its graph reaches, the
  derivative of the value with respect to that tensor.
\<close>

datatype 'v loss = PyFloat real | LossTensor real "tid \<Rightarrow> 'v option"

fun collect_grads :: "(tid \<Rightarrow> 'v option) \<Rightarrow> tid list \<Rightarrow> error + 'v list" where
  "collect_grads g [] = Inr []"
| "collect_grads g (t # ts) =
     (case g t of
        None \<Rightarrow> Inl RuntimeError
      | Some d \<Rightarrow> (case collect_grads g ts of Inl e \<Rightarrow> Inl e | Inr ds \<Rightarrow> Inr (d # ds)))"

text \<open>
  \<open>torch.autograd.grad(outputs, inputs, create_graph=...)\<close> with \<open>allow_unused\<close> at its
  default \<open>False\<close>, as the call in \<open>update_params\<close> leaves it: an output that is not a
  tensor is a TypeError, an empty input sequence and an input the output does not
  depend on are RuntimeErrors. Each gradient is returned with the flag
  \<open>create_graph\<close>: whether it is itself differentiable.
\<close>

definition autograd_grad :: "'v loss \<Rightarrow> tid list \<Rightarrow> bool \<Rightarrow> error + ('v \<times> bool) list" where
  "autograd_grad outputs inputs create_graph =
     (case outputs of
        PyFloat _ \<Rightarrow> Inl TypeError
      | LossTensor _ g \<Rightarrow>
          if inputs = [] then Inl RuntimeError
          else (case collect_grads g inputs of
                  Inl e \<Rightarrow> Inl e
                | Inr ds \<Rightarrow> Inr (map (\<lambda>d. (d, create_graph)) ds)))"

section \<open>The collaborators\<close>

text \<open>
  The network, the batch packer, the decoders, the random reward and the optimizer are
  external to \<^verbatim>\<open>metalearner.py\<close>; they are parameters of the model. \<open>net.zero_grad\<close>,
  \<open>loss.backward\<close> and \<open>optimizer.zero_grad\<close> act on gradient buffers, which live in the
  collaborator state. \<open>decode_chain_sampling\<close> and \<open>random.random\<close> advance a random
  number generator there. \<open>loss_graph\<close> is the derivative that automatic differentiation
  attaches to the policy loss.
\<close>

record ('v, 'x, 'task, 'item) env =
  net_zero_grad :: "(name \<times> tid) list option \<Rightarrow> 'x \<Rightarrow> 'x"
  insert_new_parameter :: "(name \<times> tid) list \<Rightarrow> bool \<Rightarrow> ('v, 'x) world \<Rightarrow> ('v, 'x) world"
  pack_batch_no_out :: "'task list \<Rightarrow> 'item list"
  decode_chain_argmax :: "'item \<Rightarrow> ('v, 'x) world \<Rightarrow> real list list \<times> nat list"
  decode_chain_sampling :: "'item \<Rightarrow> ('v, 'x) world \<Rightarrow> (real list list \<times> nat list) \<times> 'x"
  random_random :: "'x \<Rightarrow> real \<times> 'x"
  loss_graph :: "('v, 'x) world \<Rightarrow> real list list \<Rightarrow> nat list \<Rightarrow> real list \<Rightarrow> (tid \<Rightarrow> 'v option)"
  optimizer_zero_grad :: "'x \<Rightarrow> 'x"
  loss_backward :: "(tid \<Rightarrow> 'v option) \<Rightarrow> 'x \<Rightarrow> 'x"
  optimizer_step :: "('v, 'x) world \<Rightarrow> ('v, 'x) world"

record metalearner =
  self_device :: string
  self_samples :: nat
  self_first_order :: bool
  self_fast_lr :: real

section \<open>get_inner_loop_parameter_dict and update_params\<close>

text \<open>\<open>param.to(device=...)\<close>: the tensor itself when it is on that device already,
  a new tensor on the device otherwise.\<close>

definition tensor_to :: "string \<Rightarrow> tid \<Rightarrow> 'v tensor \<Rightarrow> ('v, 'x) world \<Rightarrow> tid \<times> ('v, 'x) world" where
  "tensor_to dv t x w =
     (if device x = dv then (t, w)
      else alloc (x\<lparr>device := dv, grad_fn := Some (ToCopyBackward t)\<rparr>) w)"

fun get_inner_loop_parameter_dict ::
  "metalearner \<Rightarrow> (name \<times> tid) list \<Rightarrow> (name \<times> tid) list \<Rightarrow> ('v, 'x) world
     \<Rightarrow> error + ((name \<times> tid) list \<times> ('v, 'x) world)" where
  "get_inner_loop_parameter_dict ml [] param_dict w = Inr (param_dict, w)"
| "get_inner_loop_parameter_dict ml ((nm, param) # params) param_dict w =
     (case fetch w param of
        None \<Rightarrow> Inl InvalidTensor
      | Some x \<Rightarrow>
          if requires_grad x then
            (case tensor_to (self_device ml) param x w of
               (t, w') \<Rightarrow>
                 get_inner_loop_parameter_dict ml params (AList.update nm t param_dict) w')
          else get_inner_loop_parameter_dict ml params param_dict w)"

text \<open>\<open>dict(pairs)\<close>: the pairs are stored one after the other.\<close>

fun py_dict :: "('k \<times> 'a) list \<Rightarrow> ('k \<times> 'a) list \<Rightarrow> ('k \<times> 'a) list" where
  "py_dict [] d = d"
| "py_dict ((k, v) # ps) d = py_dict ps (AList.update k v d)"

text \<open>The loop \<open>for key in names_grads_wrt_params.keys()\<close> of \<open>update_params\<close>: each
  key gets a new tensor \<open>names_weights_copy[key] - step_size * names_grads_wrt_params[key]\<close>.\<close>

fun update_loop ::
  "(name \<times> ('v::real_vector \<times> bool)) list \<Rightarrow> (name \<times> tid) list \<Rightarrow> real \<Rightarrow> (name \<times> tid) list
     \<Rightarrow> ('v, 'x) world \<Rightarrow> error + ((name \<times> tid) list \<times> ('v, 'x) world)" where
  "update_loop [] names_weights_copy step_size updated w = Inr (updated, w)"
| "update_loop ((key, (g, has_graph)) # rest) names_weights_copy step_size updated w =
     (case map_of names_weights_copy key of
        None \<Rightarrow> Inl KeyError
      | Some t \<Rightarrow>
          (case fetch w t of
             None \<Rightarrow> Inl InvalidTensor
           | Some x \<Rightarrow>
               (case alloc \<lparr>data = data x - step_size *\<^sub>R g,
                            requires_grad = (requires_grad x \<or> has_graph),
                            device = device x,
                            grad_fn = Some (SubBackward t step_size has_graph)\<rparr> w of
                  (t', w') \<Rightarrow>
                    update_loop rest names_weights_copy step_size
                      (AList.update key t' updated) w')))"

definition update_params ::
  "('v::real_vector, 'x, 'task, 'item) env \<Rightarrow> 'v loss \<Rightarrow> (name \<times> tid) list \<Rightarrow> real \<Rightarrow> bool
     \<Rightarrow> ('v, 'x) world \<Rightarrow> error + ((name \<times> tid) list \<times> ('v, 'x) world)" where
  "update_params env inner_loss names_weights_copy step_size first_order w =
     (let w1 = w\<lparr>ext := net_zero_grad env (Some names_weights_copy) (ext w)\<rparr> in
      case autograd_grad inner_loss (map snd names_weights_copy) (\<not> first_order) of
        Inl e \<Rightarrow> Inl e
      | Inr grads \<Rightarrow>
          update_loop (py_dict (zip (map fst names_weights_copy) grads) [])
            names_weights_copy step_size [] w1)"

section \<open>inner_loss\<close>

text \<open>
  Token ids are natural numbers, logits are lists of rows of reals, and the rewards are
  the values of \<open>random.random()\<close>, which stand in the source where the reward function is
  commented out. What \<open>inner_loss\<close> prints, and the placement of tensors on a device
  (\<open>.cuda()\<close>), are left out.
\<close>

definition establish_support_set :: "'task \<Rightarrow> nat \<Rightarrow> 'task list" where
  "establish_support_set train_data N = (if N = 0 then [train_data] else [])"

text \<open>Modelled from the spec: \<open>utils.duplicate\<close>, of \<^verbatim>\<open>libbots/utils.py\<close>, which is not
  among the sources; the spec calls two samples duplicates when they are the
  "identical token sequence".\<close>

definition duplicate :: "nat list \<Rightarrow> nat list \<Rightarrow> bool" where
  "duplicate s1 s2 = (s1 = s2)"

text \<open>The search \<open>for temp_list in action_memory: if utils.duplicate(temp_list, actions)\<close>,
  which stops at the first hit; its result is \<open>duplicate_flag\<close>.\<close>

fun duplicate_flag :: "nat list list \<Rightarrow> nat list \<Rightarrow> bool" where
  "duplicate_flag [] actions = False"
| "duplicate_flag (temp_list # rest) actions =
     (if duplicate temp_list actions then True else duplicate_flag rest actions)"

text \<open>The variables that the loops of \<open>inner_loss\<close> carry. \<open>net_policies\<close> holds one
  logits matrix (a list of rows) per kept sample.\<close>

record acc =
  net_policies :: "real list list list"
  net_actions :: "nat list"
  net_advantages :: "real list"
  total_samples :: nat
  skipped_samples :: nat

text \<open>The loop \<open>for _ in range(self.samples)\<close> for one example. The token lists built
  for display (\<open>action_tokens\<close>) are never read and are left out.\<close>

fun sampling_loop ::
  "('v, 'x, 'task, 'item) env \<Rightarrow> 'item \<Rightarrow> real \<Rightarrow> nat \<Rightarrow> nat list list \<Rightarrow> acc \<Rightarrow> ('v, 'x) world
     \<Rightarrow> nat list list \<times> acc \<times> ('v, 'x) world" where
  "sampling_loop env item argmax_reward 0 action_memory a w = (action_memory, a, w)"
| "sampling_loop env item argmax_reward (Suc n) action_memory a w =
     (case decode_chain_sampling env item w of
        ((r_sample, actions), x1) \<Rightarrow>
          (let w1 = w\<lparr>ext := x1\<rparr>;
               a1 = a\<lparr>total_samples := total_samples a + 1\<rparr>
           in if duplicate_flag action_memory actions then
                sampling_loop env item argmax_reward n action_memory
                  (a1\<lparr>skipped_samples := skipped_samples a1 + 1\<rparr>) w1
              else
                (case random_random env (ext w1) of
                   (sample_reward, x2) \<Rightarrow>
                     sampling_loop env item argmax_reward n (action_memory @ [actions])
                       (a1\<lparr>net_policies := net_policies a1 @ [r_sample],
                           net_actions := net_actions a1 @ actions,
                           net_advantages := net_advantages a1
                              @ replicate (length actions) (sample_reward - argmax_reward)\<rparr>)
                       (w1\<lparr>ext := x2\<rparr>))))"

text \<open>The loop \<open>for idx, inp_idx in enumerate(input_batch)\<close>.\<close>

fun example_loop ::
  "('v, 'x, 'task, 'item) env \<Rightarrow> metalearner \<Rightarrow> 'item list \<Rightarrow> acc \<Rightarrow> ('v, 'x) world
     \<Rightarrow> acc \<times> ('v, 'x) world" where
  "example_loop env ml [] a w = (a, w)"
| "example_loop env ml (item # items) a w =
     (case decode_chain_argmax env item w of
        (r_argmax, actions) \<Rightarrow>
          (case random_random env (ext w) of
             (argmax_reward, x1) \<Rightarrow>
               (case sampling_loop env item argmax_reward (self_samples ml) [] a (w\<lparr>ext := x1\<rparr>) of
                  (action_memory, a', w') \<Rightarrow> example_loop env ml items a' w')))"

definition log_softmax :: "real list \<Rightarrow> real list" where
  "log_softmax row = map (\<lambda>x. x - ln (sum_list (map exp row))) row"

text \<open>
  The tensor part of \<open>inner_loss\<close>: \<open>torch.cat\<close> needs rows of one width; the indexing
  \<open>log_prob_v[range(len(net_actions)), actions_t]\<close> needs a row for every action and
  every action inside its row; the product with \<open>adv_v\<close> needs as many advantages as
  actions (the loops keep the two equal); the mean of no element is nan, which the
  reals do not have and which is reported as \<open>NotANumber\<close>.
\<close>

definition policy_loss :: "real list list list \<Rightarrow> nat list \<Rightarrow> real list \<Rightarrow> error + real" where
  "policy_loss policies actions advantages =
     (let policies_v = concat policies;
          n = length actions
      in if \<not> (\<forall>r \<in> set policies_v. length r = length (hd policies_v)) then Inl RuntimeError
         else if length policies_v < n
                 \<or> (\<exists>(row, a) \<in> set (zip policies_v actions). length row \<le> a) then Inl IndexError
         else if length advantages \<noteq> n then Inl RuntimeError
         else if n = 0 then Inl NotANumber
         else Inr (- (sum_list (map2 (*) advantages
                        (map (\<lambda>(row, a). log_softmax row ! a) (zip policies_v actions)))
                      / real n)))"

definition inner_loss ::
  "('v, 'x, 'task, 'item) env \<Rightarrow> metalearner \<Rightarrow> 'task \<Rightarrow> (name \<times> tid) list option
     \<Rightarrow> ('v, 'x) world \<Rightarrow> error + ('v loss \<times> nat \<times> nat \<times> ('v, 'x) world)" where
  "inner_loss env ml task weights w =
     (let batch = establish_support_set task 0;
          w1 = (case weights of None \<Rightarrow> w | Some ws \<Rightarrow> insert_new_parameter env ws True w);
          input_batch = pack_batch_no_out env batch
      in case example_loop env ml input_batch
                \<lparr>net_policies = [], net_actions = [], net_advantages = [],
                 total_samples = 0, skipped_samples = 0\<rparr> w1 of
           (a, w2) \<Rightarrow>
             if net_policies a = [] then
               Inr (PyFloat 0, total_samples a, skipped_samples a,
                    w2\<lparr>log_info := log_info w2 @ [''The net_policies is empty!'']\<rparr>)
             else
               (case policy_loss (net_policies a) (net_actions a) (net_advantages a) of
                  Inl e \<Rightarrow> Inl e
                | Inr v \<Rightarrow>
                    Inr (LossTensor v
                           (loss_graph env w2 (concat (net_policies a)) (net_actions a)
                              (net_advantages a)),
                         total_samples a, skipped_samples a, w2)))"

section \<open>sample and meta_update\<close>

definition and_then :: "error + 'a \<Rightarrow> ('a \<Rightarrow> error + 'b) \<Rightarrow> error + 'b" where
  "and_then r f = (case r of Inl e \<Rightarrow> Inl e | Inr a \<Rightarrow> f a)"

text \<open>The loop \<open>for task in tasks\<close> of \<open>sample\<close>, with the variables it updates. The
  calls of \<open>update_params\<close> take \<open>self.fast_lr\<close> and \<open>self.first_order\<close>; the argument
  \<open>first_order\<close> of \<open>sample\<close> is not read.\<close>

fun sample_tasks ::
  "('v::real_vector, 'x, 'task, 'item) env \<Rightarrow> metalearner \<Rightarrow> 'task list \<Rightarrow> 'v loss list \<Rightarrow> nat \<Rightarrow> nat
     \<Rightarrow> ('v, 'x) world \<Rightarrow> error + ('v loss list \<times> nat \<times> nat \<times> ('v, 'x) world)" where
  "sample_tasks env ml [] task_losses n_total n_skipped w = Inr (task_losses, n_total, n_skipped, w)"
| "sample_tasks env ml (task # tasks) task_losses n_total n_skipped w =
     and_then (get_inner_loop_parameter_dict ml (net_params w) [] w) (\<lambda>(names_weights_copy, w1).
     and_then (inner_loss env ml task (Some names_weights_copy) w1) (\<lambda>(loss1, total1, skipped1, w2).
     and_then (update_params env loss1 names_weights_copy (self_fast_lr ml) (self_first_order ml) w2)
       (\<lambda>(names_weights_copy1, w3).
     and_then (inner_loss env ml task (Some names_weights_copy1) w3) (\<lambda>(loss2, total2, skipped2, w4).
     and_then (update_params env loss2 names_weights_copy1 (self_fast_lr ml) (self_first_order ml) w4)
       (\<lambda>(names_weights_copy2, w5).
     and_then (inner_loss env ml task (Some names_weights_copy2) w5)
       (\<lambda>(meta_loss, outer_total_samples, outer_skipped_samples, w6).
     sample_tasks env ml tasks (task_losses @ [meta_loss])
       (n_total + total1 + total2) (n_skipped + skipped1 + skipped2) w6))))))"

fun is_tensor :: "'v loss \<Rightarrow> bool" where
  "is_tensor (PyFloat _) = False"
| "is_tensor (LossTensor _ _) = True"

fun loss_value :: "'v loss \<Rightarrow> real" where
  "loss_value (PyFloat r) = r"
| "loss_value (LossTensor r _) = r"

fun loss_grad :: "'v loss \<Rightarrow> tid \<Rightarrow> 'v option" where
  "loss_grad (PyFloat _) = (\<lambda>t. None)"
| "loss_grad (LossTensor _ g) = g"

text \<open>\<open>torch.mean(torch.stack(task_losses))\<close>: \<open>stack\<close> refuses an empty list and anything
  that is not a tensor; the derivative of the mean is the mean of the derivatives.\<close>

definition mean_stack :: "'v::real_vector loss list \<Rightarrow> error + 'v loss" where
  "mean_stack task_losses =
     (if task_losses = [] then Inl RuntimeError
      else if \<not> list_all is_tensor task_losses then Inl TypeError
      else Inr (LossTensor
                  (sum_list (map loss_value task_losses) / real (length task_losses))
                  (\<lambda>t. if list_all (\<lambda>l. loss_grad l t = None) task_losses then None
                       else Some ((1 / real (length task_losses)) *\<^sub>R
                              sum_list (map (\<lambda>l. case loss_grad l t of None \<Rightarrow> 0 | Some d \<Rightarrow> d)
                                          task_losses)))))"

definition sample ::
  "('v::real_vector, 'x, 'task, 'item) env \<Rightarrow> metalearner \<Rightarrow> 'task list \<Rightarrow> ('v, 'x) world
     \<Rightarrow> error + ('v loss \<times> nat \<times> nat \<times> ('v, 'x) world)" where
  "sample env ml tasks w =
     and_then (sample_tasks env ml tasks [] 0 0 (w\<lparr>ext := net_zero_grad env None (ext w)\<rparr>))
       (\<lambda>(task_losses, n_total, n_skipped, w1).
     and_then (mean_stack task_losses) (\<lambda>meta_losses.
     Inr (meta_losses, n_total, n_skipped, w1)))"

text \<open>\<open>meta_update\<close>: \<open>zero_grad\<close>, \<open>loss.backward()\<close>, and one \<open>step\<close> of the optimizer built
  in \<open>__init__\<close> (\<open>optim.Adam\<close>). A float has no \<open>backward\<close>.\<close>

definition meta_update ::
  "('v, 'x, 'task, 'item) env \<Rightarrow> 'v loss \<Rightarrow> ('v, 'x) world \<Rightarrow> error + ('v, 'x) world" where
  "meta_update env loss w =
     (let w1 = w\<lparr>ext := optimizer_zero_grad env (ext w)\<rparr> in
      case loss of
        PyFloat _ \<Rightarrow> Inl AttributeError
      | LossTensor _ g \<Rightarrow> Inr (optimizer_step env (w1\<lparr>ext := loss_backward env g (ext w1)\<rparr>)))"

section \<open>The trust-region step\<close>

text \<open>
  \<open>step\<close> works on the policy parameters flattened into one vector
  (\<open>parameters_to_vector\<close>, \<open>vector_to_parameters\<close>). What it calls but the module does
  not define (the policy, \<open>adapt\<close>, the baseline, \<open>conjugate_gradient\<close>, the distribution
  helpers inside \<open>surrogate_loss\<close> and \<open>kl_divergence\<close>) is a parameter:
  \<open>surrogate_loss\<close> gives loss, KL divergence and policy distributions at given policy
  parameters, \<open>grad_old_loss\<close> the flattened gradient of the surrogate loss,
  \<open>flat_grad2_kl\<close> the flattened gradient of (gradient of KL times vector).
\<close>

type_synonym vec = "real list"

definition dot :: "vec \<Rightarrow> vec \<Rightarrow> real" where
  "dot u v = sum_list (map2 (*) u v)"

definition vadd :: "vec \<Rightarrow> vec \<Rightarrow> vec" where
  "vadd u v = map2 (+) u v"

definition vsub :: "vec \<Rightarrow> vec \<Rightarrow> vec" where
  "vsub u v = map2 (-) u v"

definition smul :: "real \<Rightarrow> vec \<Rightarrow> vec" where
  "smul c v = map ((*) c) v"

definition vdiv :: "vec \<Rightarrow> real \<Rightarrow> vec" where
  "vdiv v c = map (\<lambda>x. x / c) v"

record 'pis policy_env =
  surrogate_loss :: "'pis option \<Rightarrow> vec \<Rightarrow> real \<times> real \<times> 'pis"
  grad_old_loss :: "vec \<Rightarrow> vec"
  flat_grad2_kl :: "vec \<Rightarrow> vec \<Rightarrow> vec"
  conjugate_gradient :: "(vec \<Rightarrow> vec) \<Rightarrow> vec \<Rightarrow> nat \<Rightarrow> vec"

text \<open>The closure \<open>_product\<close> returned by \<open>hessian_vector_product\<close>, at the policy
  parameters current when it is called.\<close>

definition hessian_vector_product :: "'pis policy_env \<Rightarrow> real \<Rightarrow> vec \<Rightarrow> vec \<Rightarrow> vec" where
  "hessian_vector_product penv damping params vector =
     vadd (flat_grad2_kl penv params vector) (smul damping vector)"

text \<open>The first half of \<open>step\<close>, up to \<open>step = stepdir / lagrange_multiplier\<close>. Real
  arithmetic has no nan: the definition means what the code computes where
  \<open>shs / max_kl\<close> is positive.\<close>

definition step_vector :: "'pis policy_env \<Rightarrow> vec \<Rightarrow> real \<Rightarrow> nat \<Rightarrow> real \<Rightarrow> vec" where
  "step_vector penv params max_kl cg_iters cg_damping =
     (let grads = grad_old_loss penv params;
          hvp = hessian_vector_product penv cg_damping params;
          stepdir = conjugate_gradient penv hvp grads cg_iters;
          shs = 0.5 * dot stepdir (hvp stepdir);
          lagrange_multiplier = sqrt (shs / max_kl)
      in vdiv stepdir lagrange_multiplier)"

text \<open>The line search \<open>for _ in range(ls_max_steps): ... else: ...\<close>; the result is the
  policy's parameter vector when the loop is left.\<close>

fun line_search ::
  "'pis policy_env \<Rightarrow> vec \<Rightarrow> vec \<Rightarrow> real \<Rightarrow> 'pis \<Rightarrow> real \<Rightarrow> real \<Rightarrow> nat \<Rightarrow> real \<Rightarrow> vec" where
  "line_search penv old_params stp old_loss old_pis max_kl ls_backtrack_ratio 0 step_size =
     old_params"
| "line_search penv old_params stp old_loss old_pis max_kl ls_backtrack_ratio (Suc n) step_size =
     (let params = vsub old_params (smul step_size stp) in
      case surrogate_loss penv (Some old_pis) params of
        (loss, kl, _) \<Rightarrow>
          (let improve = loss - old_loss in
           if improve < 0 \<and> kl < max_kl then params
           else line_search penv old_params stp old_loss old_pis max_kl ls_backtrack_ratio n
                  (step_size * ls_backtrack_ratio)))"

definition step ::
  "'pis policy_env \<Rightarrow> vec \<Rightarrow> real \<Rightarrow> nat \<Rightarrow> real \<Rightarrow> nat \<Rightarrow> real \<Rightarrow> vec" where
  "step penv params max_kl cg_iters cg_damping ls_max_steps ls_backtrack_ratio =
     (case surrogate_loss penv None params of
        (old_loss, _, old_pis) \<Rightarrow>
          (let stp = step_vector penv params max_kl cg_iters cg_damping;
               old_params = params
           in line_search penv old_params stp old_loss old_pis max_kl ls_backtrack_ratio
                ls_max_steps 1))"

section \<open>The notions of the specification\<close>

text \<open>The spec's words for the line search: the parameters tried at attempt \<open>k\<close>, and
  what makes an attempt acceptable.\<close>

definition ls_attempt :: "vec \<Rightarrow> vec \<Rightarrow> real \<Rightarrow> nat \<Rightarrow> vec" where
  "ls_attempt old_params stp ls_backtrack_ratio k =
     vsub old_params (smul (1 * ls_backtrack_ratio ^ k) stp)"

definition ls_acceptable :: "'pis policy_env \<Rightarrow> real \<Rightarrow> 'pis \<Rightarrow> real \<Rightarrow> vec \<Rightarrow> bool" where
  "ls_acceptable penv old_loss old_pis max_kl params =
     (fst (surrogate_loss penv (Some old_pis) params) < old_loss
      \<and> fst (snd (surrogate_loss penv (Some old_pis) params)) < max_kl)"

text \<open>The spec's words for the line search inside \<open>step\<close>: attempt \<open>k\<close> tries the
  parameters on entry minus the step vector shrunk \<open>k\<close> times, and new parameters are
  accepted when their surrogate loss is strictly below the loss at the parameters on
  entry and their KL divergence against the distributions on entry is strictly below
  \<open>max_kl\<close>.\<close>

definition step_attempt :: "'pis policy_env \<Rightarrow> vec \<Rightarrow> real \<Rightarrow> nat \<Rightarrow> real \<Rightarrow> real \<Rightarrow> nat \<Rightarrow> vec" where
  "step_attempt penv params max_kl cg_iters cg_damping ls_backtrack_ratio k =
     ls_attempt params (step_vector penv params max_kl cg_iters cg_damping) ls_backtrack_ratio k"

definition step_accepts :: "'pis policy_env \<Rightarrow> vec \<Rightarrow> real \<Rightarrow> vec \<Rightarrow> bool" where
  "step_accepts penv params max_kl new_params =
     (case surrogate_loss penv None params of
        (old_loss, _, old_pis) \<Rightarrow>
          (case surrogate_loss penv (Some old_pis) new_params of
             (loss, kl, _) \<Rightarrow> loss < old_loss \<and> kl < max_kl))"

text \<open>
  The spec's words for the samples of a task. A sample has its logits (one row per token),
  its token sequence and its reward; the kept samples of one example share the example's
  baseline reward. \<open>first_samples seen ks\<close> goes through the samples \<open>ks\<close> and keeps every
  sample whose token sequence is not in \<open>seen\<close> and is not that of a sample kept before.
\<close>

record kept_sample =
  ks_logits :: "real list list"
  ks_actions :: "nat list"
  ks_reward :: real

fun first_samples :: "nat list list \<Rightarrow> kept_sample list \<Rightarrow> kept_sample list" where
  "first_samples seen [] = []"
| "first_samples seen (k # ks) =
     (if ks_actions k \<in> set seen then first_samples seen ks
      else k # first_samples (seen @ [ks_actions k]) ks)"

record 'item example_group =
  eg_item :: 'item
  eg_baseline :: real
  eg_kept :: "kept_sample list"

text \<open>The advantage of a kept sample, the sum of advantage times log-probability over its
  tokens, and the same over the kept samples of an example.\<close>

definition advantage :: "real \<Rightarrow> kept_sample \<Rightarrow> real" where
  "advantage b k = ks_reward k - b"

definition kept_weighted :: "real \<Rightarrow> kept_sample \<Rightarrow> real" where
  "kept_weighted b k =
     (\<Sum>(row, a) \<leftarrow> zip (ks_logits k) (ks_actions k). advantage b k * (log_softmax row ! a))"

definition group_weighted :: "'item example_group \<Rightarrow> real" where
  "group_weighted g = (\<Sum>k \<leftarrow> eg_kept g. kept_weighted (eg_baseline g) k)"

definition group_tokens :: "'item example_group \<Rightarrow> nat" where
  "group_tokens g = (\<Sum>k \<leftarrow> eg_kept g. length (ks_actions k))"

text \<open>The variables of \<open>inner_loss\<close> before its loops.\<close>

definition acc0 :: acc where
  "acc0 = \<lparr>net_policies = [], net_actions = [], net_advantages = [],
            total_samples = 0, skipped_samples = 0\<rparr>"

text \<open>The kept samples of all examples in order, each with its example's baseline.\<close>

definition flat_kept :: "'item example_group list \<Rightarrow> (real \<times> kept_sample) list" where
  "flat_kept groups = concat (map (\<lambda>g. map (Pair (eg_baseline g)) (eg_kept g)) groups)"

text \<open>
  The run of the sampling loop of one example, iteration by iteration: \<open>sample_at ... i\<close>
  is the sample decoded at iteration \<open>i\<close>, that is, what \<open>decode_chain_sampling\<close> returns in
  the state that the loop has reached after \<open>i\<close> iterations, with the value that
  \<open>random.random\<close> returns right after this decode (the reward of the sample if it is
  kept). \<open>loop_draws\<close> lists the decodes of the \<open>n\<close> iterations.
\<close>

definition sample_at ::
  "('v, 'x, 'task, 'item) env \<Rightarrow> 'item \<Rightarrow> real \<Rightarrow> nat list list \<Rightarrow> acc \<Rightarrow> ('v, 'x) world \<Rightarrow> nat
     \<Rightarrow> kept_sample" where
  "sample_at env itm argmax_reward action_memory a w i =
     (case sampling_loop env itm argmax_reward i action_memory a w of
        (mem_i, a_i, w_i) \<Rightarrow>
          (case decode_chain_sampling env itm w_i of
             ((r_sample, actions), x1) \<Rightarrow>
               \<lparr>ks_logits = r_sample, ks_actions = actions,
                ks_reward = fst (random_random env x1)\<rparr>))"

definition loop_draws ::
  "('v, 'x, 'task, 'item) env \<Rightarrow> 'item \<Rightarrow> real \<Rightarrow> nat \<Rightarrow> nat list list \<Rightarrow> acc \<Rightarrow> ('v, 'x) world
     \<Rightarrow> kept_sample list" where
  "loop_draws env itm argmax_reward n action_memory a w =
     map (sample_at env itm argmax_reward action_memory a w) [0..<n]"

text \<open>
  The run of the loop over the examples: example \<open>j\<close> is reached after the loop has gone
  through the \<open>j\<close> examples before it; its baseline is the value that \<open>random.random\<close>
  returns there, its decodes are those of its sampling loop, which starts from an empty
  \<open>action_memory\<close>, and its kept samples are the first samples among its decodes.
\<close>

definition baseline_at ::
  "('v, 'x, 'task, 'item) env \<Rightarrow> metalearner \<Rightarrow> 'item list \<Rightarrow> acc \<Rightarrow> ('v, 'x) world \<Rightarrow> nat \<Rightarrow> real" where
  "baseline_at env ml items a w j =
     (case example_loop env ml (take j items) a w of
        (a_j, w_j) \<Rightarrow> fst (random_random env (ext w_j)))"

definition draws_at ::
  "('v, 'x, 'task, 'item) env \<Rightarrow> metalearner \<Rightarrow> 'item list \<Rightarrow> acc \<Rightarrow> ('v, 'x) world \<Rightarrow> nat
     \<Rightarrow> kept_sample list" where
  "draws_at env ml items a w j =
     (case example_loop env ml (take j items) a w of
        (a_j, w_j) \<Rightarrow>
          (case random_random env (ext w_j) of
             (argmax_reward, x1) \<Rightarrow>
               loop_draws env (items ! j) argmax_reward (self_samples ml) [] a_j
                 (w_j\<lparr>ext := x1\<rparr>)))"

definition group_at ::
  "('v, 'x, 'task, 'item) env \<Rightarrow> metalearner \<Rightarrow> 'item list \<Rightarrow> acc \<Rightarrow> ('v, 'x) world \<Rightarrow> nat
     \<Rightarrow> 'item example_group" where
  "group_at env ml items a w j =
     \<lparr>eg_item = items ! j, eg_baseline = baseline_at env ml items a w j,
      eg_kept = first_samples [] (draws_at env ml items a w j)\<rparr>"

definition run_groups ::
  "('v, 'x, 'task, 'item) env \<Rightarrow> metalearner \<Rightarrow> 'item list \<Rightarrow> acc \<Rightarrow> ('v, 'x) world
     \<Rightarrow> 'item example_group list" where
  "run_groups env ml items a w = map (group_at env ml items a w) [0..<length items]"

text \<open>
  The same for a call of \<open>inner_loss\<close>: the examples of the task, the world in which the
  loops start, the decodes of example \<open>j\<close>, the examples with their kept samples, the kept
  samples of all examples in order, and the variables \<open>net_policies\<close>, \<open>net_actions\<close>,
  \<open>net_advantages\<close>, \<open>total_samples\<close>, \<open>skipped_samples\<close> when the loops are done.
  \<open>token_weighted\<close> is the sum, over the collected tokens, of the advantage times the
  log-softmax of the token's logits row at the token's index.
\<close>

definition inner_loss_items :: "('v, 'x, 'task, 'item) env \<Rightarrow> 'task \<Rightarrow> 'item list" where
  "inner_loss_items env task = pack_batch_no_out env (establish_support_set task 0)"

definition inner_loss_world ::
  "('v, 'x, 'task, 'item) env \<Rightarrow> (name \<times> tid) list option \<Rightarrow> ('v, 'x) world \<Rightarrow> ('v, 'x) world" where
  "inner_loss_world env weights w =
     (case weights of None \<Rightarrow> w | Some ws \<Rightarrow> insert_new_parameter env ws True w)"

definition inner_loss_draws ::
  "('v, 'x, 'task, 'item) env \<Rightarrow> metalearner \<Rightarrow> 'task \<Rightarrow> (name \<times> tid) list option
     \<Rightarrow> ('v, 'x) world \<Rightarrow> nat \<Rightarrow> kept_sample list" where
  "inner_loss_draws env ml task weights w j =
     draws_at env ml (inner_loss_items env task) acc0 (inner_loss_world env weights w) j"

definition inner_loss_groups ::
  "('v, 'x, 'task, 'item) env \<Rightarrow> metalearner \<Rightarrow> 'task \<Rightarrow> (name \<times> tid) list option
     \<Rightarrow> ('v, 'x) world \<Rightarrow> 'item example_group list" where
  "inner_loss_groups env ml task weights w =
     run_groups env ml (inner_loss_items env task) acc0 (inner_loss_world env weights w)"

definition inner_loss_kept ::
  "('v, 'x, 'task, 'item) env \<Rightarrow> metalearner \<Rightarrow> 'task \<Rightarrow> (name \<times> tid) list option
     \<Rightarrow> ('v, 'x) world \<Rightarrow> kept_sample list" where
  "inner_loss_kept env ml task weights w =
     concat (map eg_kept (inner_loss_groups env ml task weights w))"

definition inner_loss_acc ::
  "('v, 'x, 'task, 'item) env \<Rightarrow> metalearner \<Rightarrow> 'task \<Rightarrow> (name \<times> tid) list option
     \<Rightarrow> ('v, 'x) world \<Rightarrow> acc" where
  "inner_loss_acc env ml task weights w =
     fst (example_loop env ml (inner_loss_items env task) acc0 (inner_loss_world env weights w))"

definition token_weighted :: "acc \<Rightarrow> real" where
  "token_weighted a =
     sum_list (map2 (*) (net_advantages a)
       (map (\<lambda>(row, t). log_softmax row ! t) (zip (concat (net_policies a)) (net_actions a))))"

text \<open>
  The spec's words for the meta-update path. One inner step computes the inner loss under
  the given weights and applies one inner-loop update. The adaptation of a task derives
  the weights from the shared parameters, takes two inner steps and computes the
  meta-loss under the twice-updated weights; it records the three snapshots of the
  weights and the sample counts of the three loss evaluations.
\<close>

record 'v task_run =
  tr_initial :: "(name \<times> tid) list"
  tr_step1 :: "(name \<times> tid) list"
  tr_step2 :: "(name \<times> tid) list"
  tr_counts1 :: "nat \<times> nat"
  tr_counts2 :: "nat \<times> nat"
  tr_counts3 :: "nat \<times> nat"
  tr_meta_loss :: "'v loss"

definition inner_step ::
  "('v::real_vector, 'x, 'task, 'item) env \<Rightarrow> metalearner \<Rightarrow> 'task \<Rightarrow> (name \<times> tid) list
     \<Rightarrow> ('v, 'x) world \<Rightarrow> error + ((name \<times> tid) list \<times> (nat \<times> nat) \<times> ('v, 'x) world)" where
  "inner_step env ml task weights w =
     and_then (inner_loss env ml task (Some weights) w) (\<lambda>(loss, n_total, n_skipped, w1).
     and_then (update_params env loss weights (self_fast_lr ml) (self_first_order ml) w1)
       (\<lambda>(weights', w2).
     Inr (weights', (n_total, n_skipped), w2)))"

definition two_step_adaptation ::
  "('v::real_vector, 'x, 'task, 'item) env \<Rightarrow> metalearner \<Rightarrow> 'task \<Rightarrow> ('v, 'x) world
     \<Rightarrow> error + ('v task_run \<times> ('v, 'x) world)" where
  "two_step_adaptation env ml task w =
     and_then (get_inner_loop_parameter_dict ml (net_params w) [] w) (\<lambda>(weights0, w0).
     and_then (inner_step env ml task weights0 w0) (\<lambda>(weights1, counts1, w1).
     and_then (inner_step env ml task weights1 w1) (\<lambda>(weights2, counts2, w2).
     and_then (inner_loss env ml task (Some weights2) w2) (\<lambda>(meta_loss, n_total, n_skipped, w3).
     Inr (\<lparr>tr_initial = weights0, tr_step1 = weights1, tr_step2 = weights2,
            tr_counts1 = counts1, tr_counts2 = counts2, tr_counts3 = (n_total, n_skipped),
            tr_meta_loss = meta_loss\<rparr>, w3)))))"

fun adapt_all ::
  "('v::real_vector, 'x, 'task, 'item) env \<Rightarrow> metalearner \<Rightarrow> 'task list \<Rightarrow> ('v, 'x) world
     \<Rightarrow> error + ('v task_run list \<times> ('v, 'x) world)" where
  "adapt_all env ml [] w = Inr ([], w)"
| "adapt_all env ml (task # tasks) w =
     and_then (two_step_adaptation env ml task w) (\<lambda>(r, w1).
     and_then (adapt_all env ml tasks w1) (\<lambda>(rs, w2).
     Inr (r # rs, w2)))"




section \<open>A concrete learner\<close>

text \<open>
  A small instance on which the definitions can be evaluated: a network with two
  trainable scalar parameters \<open>a\<close> and \<open>b\<close> on the learner's device, a decoder whose
  first sample is the token sequence \<open>[0]\<close> and whose later samples are all \<open>[1]\<close>, and a
  reward that counts up in quarters. The policy loss depends on every tensor of the
  store. For the trust-region step: a surrogate loss that is the sum of the policy
  parameters with KL divergence 0 (in \<open>demo_penv_kl\<close>: with KL divergence minus four times
  that sum), a conjugate-gradient direction \<open>[1]\<close> and the Hessian-vector product
  \<open>v \<mapsto> 8 v\<close>. \<open>demo_world_after\<close> and \<open>demo_run\<close> are what the definitions evaluate to
  on this instance. \<open>demo_env_ins\<close> is the same learner with \<open>net.insert_new_parameter\<close>
  as the spec describes it, and \<open>demo_world_ins\<close> the world it ends in.
\<close>

definition demo_env :: "(real, nat \<times> nat, nat list, nat) env" where
  "demo_env = \<lparr>
     net_zero_grad = (\<lambda>ps x. x),
     insert_new_parameter = (\<lambda>ws strict w. w),
     pack_batch_no_out = concat,
     decode_chain_argmax = (\<lambda>item w. ([[0, 0]], [0])),
     decode_chain_sampling =
       (\<lambda>item w. (([[0, 0]], [min (fst (ext w)) 1]), (fst (ext w) + 1, snd (ext w)))),
     random_random = (\<lambda>x. (real (snd x) / 4, (fst x, snd x + 1))),
     loss_graph = (\<lambda>w ps as advs t. if t < length (heap w) then Some 1 else None),
     optimizer_zero_grad = (\<lambda>x. x),
     loss_backward = (\<lambda>g x. x),
     optimizer_step = (\<lambda>w. w)\<rparr>"

definition demo_tensor :: "real \<Rightarrow> real tensor" where
  "demo_tensor r = \<lparr>data = r, requires_grad = True, device = ''cuda'', grad_fn = None\<rparr>"

definition demo_world :: "(real, nat \<times> nat) world" where
  "demo_world = \<lparr>heap = [demo_tensor 1, demo_tensor 2],
     net_params = [(''a'', 0), (''b'', 1)], log_info = [], ext = (0, 0)\<rparr>"

definition demo_graph_ab :: "tid \<Rightarrow> real option" where
  "demo_graph_ab t = (if t = 0 then Some 2 else if t = 1 then Some 4 else None)"

definition demo_graph_a :: "tid \<Rightarrow> real option" where
  "demo_graph_a t = (if t = 0 then Some 2 else None)"

definition demo_penv :: "unit policy_env" where
  "demo_penv = \<lparr>
     surrogate_loss = (\<lambda>old_pis params. (sum_list params, 0, ())),
     grad_old_loss = (\<lambda>params. [1]),
     flat_grad2_kl = (\<lambda>params v. smul 8 v),
     conjugate_gradient = (\<lambda>hvp g cg_iters. [1])\<rparr>"

definition demo_penv_kl :: "unit policy_env" where
  "demo_penv_kl = \<lparr>
     surrogate_loss = (\<lambda>old_pis params. (sum_list params, - 4 * sum_list params, ())),
     grad_old_loss = (\<lambda>params. [1]),
     flat_grad2_kl = (\<lambda>params v. smul 8 v),
     conjugate_gradient = (\<lambda>hvp g cg_iters. [1])\<rparr>"

definition demo_draw :: "nat \<Rightarrow> real \<Rightarrow> kept_sample" where
  "demo_draw t r = \<lparr>ks_logits = [[0, 0]], ks_actions = [t], ks_reward = r\<rparr>"

definition demo_ml :: metalearner where
  "demo_ml = \<lparr>self_device = ''cuda'', self_samples = 3, self_first_order = False,
               self_fast_lr = 1 / 2\<rparr>"

definition demo_graph_all :: "tid \<Rightarrow> real option" where
  "demo_graph_all t = (if t < 2 then Some 1 else None)"

definition demo_graph6 :: "tid \<Rightarrow> real option" where
  "demo_graph6 t = (if t < 6 then Some 1 else None)"

definition demo_updated :: "real \<Rightarrow> tid \<Rightarrow> real tensor" where
  "demo_updated r t = \<lparr>data = r, requires_grad = True, device = ''cuda'',
                        grad_fn = Some (SubBackward t (1 / 2) True)\<rparr>"

definition demo_world_after :: "(real, nat \<times> nat) world" where
  "demo_world_after = \<lparr>heap = [demo_tensor 1, demo_tensor 2, demo_updated (1 / 2) 0,
       demo_updated (3 / 2) 1, demo_updated 0 2, demo_updated 1 3],
     net_params = [(''a'', 0), (''b'', 1)], log_info = [], ext = (18, 13)\<rparr>"




section \<open>update_params: auxiliary facts\<close>

lemma update_fresh: "k \<notin> fst ` set d \<Longrightarrow> AList.update k v d = d @ [(k, v)]"
  by (induction d) auto

lemma py_dict_distinct:
  "distinct (map fst (d @ ps)) \<Longrightarrow> py_dict ps d = d @ ps"
proof (induction ps arbitrary: d)
  case Nil
  then show ?case by simp
next
  case (Cons p ps)
  obtain k v where p: "p = (k, v)" by (cases p)
  from Cons.prems have fresh: "k \<notin> fst ` set d" by (auto simp: p)
  from Cons.prems have "distinct (map fst ((d @ [(k, v)]) @ ps))" by (auto simp: p)
  from Cons.IH[OF this] show ?case by (simp add: p update_fresh[OF fresh])
qed

lemma collect_grads_Inr:
  "(\<forall>t \<in> set ts. g t \<noteq> None) \<Longrightarrow> collect_grads g ts = Inr (map (\<lambda>t. the (g t)) ts)"
  by (induction ts) auto

lemma collect_grads_Inl:
  "(\<exists>t \<in> set ts. g t = None) \<Longrightarrow> collect_grads g ts = Inl RuntimeError"
proof (induction ts)
  case Nil
  then show ?case by simp
next
  case (Cons a ts)
  show ?case
  proof (cases "g a")
    case None
    then show ?thesis by simp
  next
    case (Some d)
    with Cons.prems have "\<exists>t \<in> set ts. g t = None" by auto
    from Cons.IH[OF this] Some show ?thesis by simp
  qed
qed

lemma fetch_alloc_old:
  "t < length (heap w) \<Longrightarrow> fetch (snd (alloc x w)) t = fetch w t"
  by (simp add: fetch_def alloc_def nth_append)

lemma update_loop_spec:
  assumes "\<forall>k \<in> fst ` set kgs. \<exists>t. map_of nwc k = Some t \<and> t < length (heap w)"
    and "distinct (map fst kgs)"
    and "fst ` set kgs \<inter> fst ` set upd = {}"
  shows "\<exists>upd' w'. update_loop kgs nwc s upd w = Inr (upd', w')
      \<and> map fst upd' = map fst upd @ map fst kgs
      \<and> length (heap w') = length (heap w) + length kgs
      \<and> take (length (heap w)) (heap w') = heap w
      \<and> ext w' = ext w \<and> net_params w' = net_params w \<and> log_info w' = log_info w
      \<and> (\<forall>k t. map_of upd k = Some t \<longrightarrow> map_of upd' k = Some t)
      \<and> (\<forall>(k, g, b) \<in> set kgs. \<exists>t t'. map_of nwc k = Some t \<and> map_of upd' k = Some t'
            \<and> length (heap w) \<le> t' \<and> t' < length (heap w')
            \<and> heap w' ! t' = \<lparr>data = data (heap w ! t) - s *\<^sub>R g,
                  requires_grad = (requires_grad (heap w ! t) \<or> b),
                  device = device (heap w ! t),
                  grad_fn = Some (SubBackward t s b)\<rparr>)"
  using assms
proof (induction kgs arbitrary: upd w)
  case Nil
  then show ?case by simp
next
  case (Cons p kgs)
  obtain key g b where p: "p = (key, g, b)" by (cases p)
  from Cons.prems(1) obtain t where t: "map_of nwc key = Some t" "t < length (heap w)"
    by (auto simp: p)
  define x where "x = heap w ! t"
  define nx where "nx = \<lparr>data = data x - s *\<^sub>R g, requires_grad = (requires_grad x \<or> b),
     device = device x, grad_fn = Some (SubBackward t s b)\<rparr>"
  define w1 where "w1 = w\<lparr>heap := heap w @ [nx]\<rparr>"
  define upd1 where "upd1 = AList.update key (length (heap w)) upd"
  have fresh: "key \<notin> fst ` set upd" using Cons.prems(3) by (auto simp: p)
  have upd1: "upd1 = upd @ [(key, length (heap w))]"
    unfolding upd1_def by (rule update_fresh[OF fresh])
  have step: "update_loop (p # kgs) nwc s upd w = update_loop kgs nwc s upd1 w1"
    using t by (simp add: p fetch_def alloc_def x_def nx_def w1_def upd1_def)
  have h1: "heap w1 = heap w @ [nx]" by (simp add: w1_def)
  have pre1: "\<forall>k \<in> fst ` set kgs. \<exists>t. map_of nwc k = Some t \<and> t < length (heap w1)"
    using Cons.prems(1) by (fastforce simp: h1)
  have pre2: "distinct (map fst kgs)" using Cons.prems(2) by simp
  have pre3: "fst ` set kgs \<inter> fst ` set upd1 = {}"
    using Cons.prems(2,3) by (auto simp: upd1 p)
  from Cons.IH[OF pre1 pre2 pre3] obtain upd' w' where
    r: "update_loop kgs nwc s upd1 w1 = Inr (upd', w')"
    and keys: "map fst upd' = map fst upd1 @ map fst kgs"
    and len: "length (heap w') = length (heap w1) + length kgs"
    and tk: "take (length (heap w1)) (heap w') = heap w1"
    and same: "ext w' = ext w1" "net_params w' = net_params w1" "log_info w' = log_info w1"
    and keep: "\<forall>k t. map_of upd1 k = Some t \<longrightarrow> map_of upd' k = Some t"
    and new: "\<forall>(k, g, b) \<in> set kgs. \<exists>t t'. map_of nwc k = Some t \<and> map_of upd' k = Some t'
            \<and> length (heap w1) \<le> t' \<and> t' < length (heap w')
            \<and> heap w' ! t' = \<lparr>data = data (heap w1 ! t) - s *\<^sub>R g,
                  requires_grad = (requires_grad (heap w1 ! t) \<or> b),
                  device = device (heap w1 ! t),
                  grad_fn = Some (SubBackward t s b)\<rparr>"
    by (elim exE conjE) (rule that; assumption)
  have pref: "\<And>i. i < length (heap w1) \<Longrightarrow> heap w' ! i = heap w1 ! i"
  proof -
    fix i assume "i < length (heap w1)"
    then have "take (length (heap w1)) (heap w') ! i = heap w' ! i" by simp
    then show "heap w' ! i = heap w1 ! i" by (simp add: tk)
  qed
  have tk0: "take (length (heap w)) (heap w') = heap w"
  proof -
    have "take (length (heap w)) (take (length (heap w1)) (heap w')) = take (length (heap w)) (heap w1)"
      by (simp only: tk)
    then show ?thesis by (simp add: h1 min_def)
  qed
  have c1: "map fst upd' = map fst upd @ map fst (p # kgs)" by (simp add: keys upd1 p)
  have c2: "length (heap w') = length (heap w) + length (p # kgs)" by (simp add: len h1)
  have c4: "\<forall>k t. map_of upd k = Some t \<longrightarrow> map_of upd' k = Some t"
  proof (intro allI impI)
    fix k t0 assume a: "map_of upd k = Some t0"
    then have "map_of upd1 k = Some t0" by (simp add: upd1)
    with keep show "map_of upd' k = Some t0" by blast
  qed
  have kmap: "map_of upd1 key = Some (length (heap w))"
    using fresh by (simp add: upd1 map_add_Some_iff map_of_eq_None_iff)
  have c5: "\<forall>(k, g, b) \<in> set (p # kgs). \<exists>t t'. map_of nwc k = Some t \<and> map_of upd' k = Some t'
            \<and> length (heap w) \<le> t' \<and> t' < length (heap w')
            \<and> heap w' ! t' = \<lparr>data = data (heap w ! t) - s *\<^sub>R g,
                  requires_grad = (requires_grad (heap w ! t) \<or> b),
                  device = device (heap w ! t),
                  grad_fn = Some (SubBackward t s b)\<rparr>"
  proof
    fix q assume q: "q \<in> set (p # kgs)"
    obtain k' g' b' where q3: "q = (k', g', b')" by (cases q)
    show "case q of (k, g, b) \<Rightarrow> \<exists>t t'. map_of nwc k = Some t \<and> map_of upd' k = Some t'
            \<and> length (heap w) \<le> t' \<and> t' < length (heap w')
            \<and> heap w' ! t' = \<lparr>data = data (heap w ! t) - s *\<^sub>R g,
                  requires_grad = (requires_grad (heap w ! t) \<or> b),
                  device = device (heap w ! t),
                  grad_fn = Some (SubBackward t s b)\<rparr>"
    proof (cases "q = p")
      case True
      have "map_of upd' key = Some (length (heap w))" using keep kmap by blast
      moreover have "heap w' ! length (heap w) = nx"
        using pref[of "length (heap w)"] by (simp add: h1)
      moreover have "length (heap w) < length (heap w')" by (simp add: len h1)
      ultimately show ?thesis using t True by (simp add: p nx_def x_def)
    next
      case False
      with q have qin: "(k', g', b') \<in> set kgs" by (simp add: q3)
      with new obtain t1 t1' where n1: "map_of nwc k' = Some t1" "map_of upd' k' = Some t1'"
        "length (heap w1) \<le> t1'" "t1' < length (heap w')"
        "heap w' ! t1' = \<lparr>data = data (heap w1 ! t1) - s *\<^sub>R g',
                  requires_grad = (requires_grad (heap w1 ! t1) \<or> b'),
                  device = device (heap w1 ! t1),
                  grad_fn = Some (SubBackward t1 s b')\<rparr>"
        by fastforce
      from Cons.prems(1) qin n1(1) have "t1 < length (heap w)" by (fastforce simp: p)
      then have "heap w1 ! t1 = heap w ! t1" by (simp add: h1 nth_append)
      with n1 show ?thesis by (auto simp: q3 h1)
    qed
  qed
  show ?case
    unfolding step using r c1 c2 tk0 same c4 c5 by (simp add: w1_def)
qed


section \<open>update_params\<close>

text \<open>
  Claim C3, as stated, fails: \<open>update_params\<close> does not return a mapping for every
  input. For the float \<open>0.0\<close> that \<open>inner_loss\<close> returns when it kept no sample,
  \<open>torch.autograd.grad\<close> raises a TypeError, and for an empty mapping it raises a
  RuntimeError, although the loss is a tensor.
\<close>

theorem update_params_not_total_counterexample:
  "update_params demo_env (PyFloat 0) [(''a'', 0), (''b'', 1)] (1/2) False demo_world
     = Inl TypeError
   \<and> update_params demo_env (LossTensor 3 demo_graph_ab) [] (1/2) False demo_world
     = Inl RuntimeError"
  by (simp add: update_params_def autograd_grad_def)

text \<open>
  Claim C3, amended. When the loss is a tensor that depends on every weight of a
  non-empty mapping, \<open>update_params\<close> returns a mapping with the same keys; the tensor
  at each key is a new object whose value is the input value minus \<open>step_size\<close> times
  the gradient of the loss with respect to that weight, recorded as computed with a
  retained graph exactly when \<open>first_order\<close> is false; and every tensor that existed
  before, the input weights among them, is unchanged.
\<close>

theorem update_params_decrements:
  assumes "distinct (map fst nwc)" and "nwc \<noteq> []"
    and "\<forall>(k, t) \<in> set nwc. t < length (heap w) \<and> g t \<noteq> None"
  shows "\<exists>updated w'.
      update_params env (LossTensor v g) nwc step_size first_order w = Inr (updated, w')
    \<and> map fst updated = map fst nwc
    \<and> (\<forall>(k, t) \<in> set nwc. \<exists>t'. map_of updated k = Some t'
          \<and> length (heap w) \<le> t' \<and> t' < length (heap w')
          \<and> data (heap w' ! t') = data (heap w ! t) - step_size *\<^sub>R the (g t)
          \<and> grad_fn (heap w' ! t') = Some (SubBackward t step_size (\<not> first_order)))
    \<and> take (length (heap w)) (heap w') = heap w"
proof -
  define w1 where "w1 = w\<lparr>ext := net_zero_grad env (Some nwc) (ext w)\<rparr>"
  define kgs where "kgs = map (\<lambda>(k, t). (k, the (g t), \<not> first_order)) nwc"
  have hw1: "heap w1 = heap w" by (simp add: w1_def)
  have all: "\<forall>t \<in> set (map snd nwc). g t \<noteq> None" using assms(3) by auto
  have zipeq: "zip (map fst nwc) (map (\<lambda>d. (d, \<not> first_order)) (map (\<lambda>t. the (g t)) (map snd nwc))) = kgs"
    unfolding kgs_def by (induction nwc) auto
  have kfst: "map fst kgs = map fst nwc" unfolding kgs_def by (induction nwc) auto
  have dk: "distinct (map fst ([] @ kgs))" using assms(1) by (simp add: kfst)
  have unf: "update_params env (LossTensor v g) nwc step_size first_order w
      = update_loop kgs nwc step_size [] w1"
    using assms(2) zipeq py_dict_distinct[OF dk]
    by (simp add: update_params_def autograd_grad_def collect_grads_Inr[OF all] w1_def)
  have pre1: "\<forall>k \<in> fst ` set kgs. \<exists>t. map_of nwc k = Some t \<and> t < length (heap w1)"
  proof
    fix k assume "k \<in> fst ` set kgs"
    then have "k \<in> set (map fst nwc)" using kfst by (metis set_map)
    then obtain t where kt: "(k, t) \<in> set nwc" by auto
    then have "map_of nwc k = Some t" using assms(1) by simp
    moreover have "t < length (heap w)" using assms(3) kt by auto
    ultimately show "\<exists>t. map_of nwc k = Some t \<and> t < length (heap w1)" by (simp add: hw1)
  qed
  have pre2: "distinct (map fst kgs)" using assms(1) by (simp add: kfst)
  have pre3: "fst ` set kgs \<inter> fst ` set [] = {}" by simp
  from update_loop_spec[OF pre1 pre2 pre3, of step_size] obtain upd' w' where
    r: "update_loop kgs nwc step_size [] w1 = Inr (upd', w')"
    and keys: "map fst upd' = map fst kgs"
    and len: "length (heap w') = length (heap w1) + length kgs"
    and tk: "take (length (heap w1)) (heap w') = heap w1"
    and new: "\<forall>(k, g, b) \<in> set kgs. \<exists>t t'. map_of nwc k = Some t \<and> map_of upd' k = Some t'
            \<and> length (heap w1) \<le> t' \<and> t' < length (heap w')
            \<and> heap w' ! t' = \<lparr>data = data (heap w1 ! t) - step_size *\<^sub>R g,
                  requires_grad = (requires_grad (heap w1 ! t) \<or> b),
                  device = device (heap w1 ! t),
                  grad_fn = Some (SubBackward t step_size b)\<rparr>"
    by (elim exE conjE) (rule that; (assumption | simp))
  have vals: "\<forall>(k, t) \<in> set nwc. \<exists>t'. map_of upd' k = Some t'
          \<and> length (heap w) \<le> t' \<and> t' < length (heap w')
          \<and> data (heap w' ! t') = data (heap w ! t) - step_size *\<^sub>R the (g t)
          \<and> grad_fn (heap w' ! t') = Some (SubBackward t step_size (\<not> first_order))"
  proof
    fix p assume pin: "p \<in> set nwc"
    obtain k t where p: "p = (k, t)" by (cases p)
    have "(k, the (g t), \<not> first_order) \<in> set kgs" using pin p unfolding kgs_def by force
    with new obtain t0 t' where n: "map_of nwc k = Some t0" "map_of upd' k = Some t'"
       "length (heap w1) \<le> t'" "t' < length (heap w')"
       "heap w' ! t' = \<lparr>data = data (heap w1 ! t0) - step_size *\<^sub>R the (g t),
                  requires_grad = (requires_grad (heap w1 ! t0) \<or> \<not> first_order),
                  device = device (heap w1 ! t0),
                  grad_fn = Some (SubBackward t0 step_size (\<not> first_order))\<rparr>"
      by fastforce
    have "map_of nwc k = Some t" using assms(1) pin p by simp
    with n(1) have "t0 = t" by simp
    with n show "case p of (k, t) \<Rightarrow> \<exists>t'. map_of upd' k = Some t'
          \<and> length (heap w) \<le> t' \<and> t' < length (heap w')
          \<and> data (heap w' ! t') = data (heap w ! t) - step_size *\<^sub>R the (g t)
          \<and> grad_fn (heap w' ! t') = Some (SubBackward t step_size (\<not> first_order))"
      by (simp add: p hw1)
  qed
  show ?thesis
    using unf r keys kfst vals tk by (simp add: hw1)
qed

theorem update_params_decrements_witness:
  "\<exists>updated w'.
      update_params demo_env (LossTensor 3 demo_graph_ab)
        [(''a'', 0), (''b'', 1)] (1/2) False demo_world = Inr (updated, w')
    \<and> map fst updated = [''a'', ''b'']
    \<and> (\<exists>t'. map_of updated ''a'' = Some t' \<and> length (heap demo_world) \<le> t'
           \<and> t' < length (heap w') \<and> data (heap w' ! t') = 0
           \<and> grad_fn (heap w' ! t') = Some (SubBackward 0 (1/2) True))
    \<and> (\<exists>t'. map_of updated ''b'' = Some t' \<and> length (heap demo_world) \<le> t'
           \<and> t' < length (heap w') \<and> data (heap w' ! t') = 0
           \<and> grad_fn (heap w' ! t') = Some (SubBackward 1 (1/2) True))
    \<and> take (length (heap demo_world)) (heap w') = heap demo_world"
  using update_params_decrements [of "[(''a'', 0), (''b'', 1)]" demo_world
      demo_graph_ab demo_env 3 "1/2" False]
  by (simp add: demo_world_def demo_tensor_def demo_graph_ab_def)

text \<open>
  Claim C7, as stated, fails: the loss below does not depend on the weight \<open>b\<close>, and
  \<open>update_params\<close> does not return a mapping in which \<open>b\<close> keeps its value; the call of
  \<open>torch.autograd.grad\<close> raises.
\<close>

theorem update_params_unused_weight_counterexample:
  "update_params demo_env (LossTensor 3 demo_graph_a)
     [(''a'', 0), (''b'', 1)] (1/2) False demo_world = Inl RuntimeError"
  by (simp add: update_params_def autograd_grad_def demo_graph_a_def)

text \<open>
  Claim C7, amended. If the loss is a tensor that does not depend on some weight of the
  mapping, \<open>update_params\<close> raises a RuntimeError and returns no mapping.
\<close>

theorem update_params_unused_weight_raises:
  assumes "\<exists>(k, t) \<in> set nwc. g t = None"
  shows "update_params env (LossTensor v g) nwc step_size first_order w = Inl RuntimeError"
proof -
  from assms have "\<exists>t \<in> set (map snd nwc). g t = None" by force
  from collect_grads_Inl[OF this] show ?thesis
    by (simp add: update_params_def autograd_grad_def)
qed

theorem update_params_unused_weight_raises_witness:
  "(\<exists>(k, t) \<in> set [(''a'', 0), (''b'', Suc 0)]. demo_graph_a t = None)
   \<and> update_params demo_env (LossTensor 3 demo_graph_a)
        [(''a'', 0), (''b'', Suc 0)] (1/2) False demo_world = Inl RuntimeError"
  using update_params_unused_weight_raises [of "[(''a'', 0), (''b'', Suc 0)]"
      demo_graph_a demo_env 3 "1/2" False demo_world]
  by (simp add: demo_graph_a_def)

section \<open>The trust-region step: line search and step length\<close>

lemma line_search_Suc:
  "line_search penv old stp old_loss old_pis max_kl ratio (Suc n) s =
     (if ls_acceptable penv old_loss old_pis max_kl (vsub old (smul s stp))
      then vsub old (smul s stp)
      else line_search penv old stp old_loss old_pis max_kl ratio n (s * ratio))"
  by (cases "surrogate_loss penv (Some old_pis) (vsub old (smul s stp))")
     (auto simp: ls_acceptable_def Let_def)

lemma line_search_none:
  "(\<forall>k<n. \<not> ls_acceptable penv old_loss old_pis max_kl (vsub old (smul (s * ratio ^ k) stp)))
   \<Longrightarrow> line_search penv old stp old_loss old_pis max_kl ratio n s = old"
proof (induction n arbitrary: s)
  case 0
  then show ?case by simp
next
  case (Suc n)
  from Suc.prems have first: "\<not> ls_acceptable penv old_loss old_pis max_kl (vsub old (smul s stp))"
    by (metis mult.right_neutral power_0 zero_less_Suc)
  have rest: "\<forall>k<n. \<not> ls_acceptable penv old_loss old_pis max_kl
                  (vsub old (smul ((s * ratio) * ratio ^ k) stp))"
  proof (intro allI impI)
    fix k assume "k < n"
    then have "Suc k < Suc n" by simp
    with Suc.prems have "\<not> ls_acceptable penv old_loss old_pis max_kl
        (vsub old (smul (s * ratio ^ Suc k) stp))" by blast
    then show "\<not> ls_acceptable penv old_loss old_pis max_kl
        (vsub old (smul ((s * ratio) * ratio ^ k) stp))" by (simp add: mult.assoc)
  qed
  show ?case
    using first Suc.IH[OF rest] by (simp only: line_search_Suc if_False)
qed

lemma line_search_result:
  "line_search penv old stp old_loss old_pis max_kl ratio n s = old
   \<or> (\<exists>k<n. line_search penv old stp old_loss old_pis max_kl ratio n s
              = vsub old (smul (s * ratio ^ k) stp)
          \<and> ls_acceptable penv old_loss old_pis max_kl (vsub old (smul (s * ratio ^ k) stp)))"
proof (induction n arbitrary: s)
  case 0
  then show ?case by simp
next
  case (Suc n)
  show ?case
  proof (cases "ls_acceptable penv old_loss old_pis max_kl (vsub old (smul s stp))")
    case True
    then have e: "line_search penv old stp old_loss old_pis max_kl ratio (Suc n) s
        = vsub old (smul s stp)"
      by (simp only: line_search_Suc if_True)
    have "0 < Suc n \<and> line_search penv old stp old_loss old_pis max_kl ratio (Suc n) s
        = vsub old (smul (s * ratio ^ 0) stp)
      \<and> ls_acceptable penv old_loss old_pis max_kl (vsub old (smul (s * ratio ^ 0) stp))"
      using True e by (simp del: line_search.simps)
    then show ?thesis by blast
  next
    case False
    then have eq: "line_search penv old stp old_loss old_pis max_kl ratio (Suc n) s
        = line_search penv old stp old_loss old_pis max_kl ratio n (s * ratio)"
      by (simp only: line_search_Suc if_False)
    from Suc.IH[of "s * ratio"] show ?thesis
    proof
      assume "line_search penv old stp old_loss old_pis max_kl ratio n (s * ratio) = old"
      then show ?thesis unfolding eq by blast
    next
      assume "\<exists>k<n. line_search penv old stp old_loss old_pis max_kl ratio n (s * ratio)
              = vsub old (smul (s * ratio * ratio ^ k) stp)
          \<and> ls_acceptable penv old_loss old_pis max_kl (vsub old (smul (s * ratio * ratio ^ k) stp))"
      then obtain k where k: "k < n"
        "line_search penv old stp old_loss old_pis max_kl ratio n (s * ratio)
              = vsub old (smul (s * ratio * ratio ^ k) stp)"
        "ls_acceptable penv old_loss old_pis max_kl (vsub old (smul (s * ratio * ratio ^ k) stp))"
        by blast
      have "Suc k < Suc n" using k(1) by simp
      moreover have "s * ratio * ratio ^ k = s * ratio ^ Suc k" by (simp add: mult.assoc)
      ultimately show ?thesis unfolding eq using k(2,3) by metis
    qed
  qed
qed

lemma line_search_first:
  assumes "k < n"
    and "ls_acceptable penv old_loss old_pis max_kl (vsub old (smul (s * ratio ^ k) stp))"
    and "\<forall>j<k. \<not> ls_acceptable penv old_loss old_pis max_kl (vsub old (smul (s * ratio ^ j) stp))"
  shows "line_search penv old stp old_loss old_pis max_kl ratio n s
           = vsub old (smul (s * ratio ^ k) stp)"
  using assms
proof (induction n arbitrary: s k)
  case 0
  then show ?case by simp
next
  case (Suc n)
  show ?case
  proof (cases k)
    case 0
    with Suc.prems(2) have "ls_acceptable penv old_loss old_pis max_kl (vsub old (smul s stp))"
      by simp
    then show ?thesis using 0 by (simp only: line_search_Suc if_True power_0 mult_1_right)
  next
    case (Suc k')
    from Suc.prems(3) Suc have first: "\<not> ls_acceptable penv old_loss old_pis max_kl (vsub old (smul s stp))"
      by (metis mult.right_neutral power_0 zero_less_Suc)
    have e: "\<And>j. s * ratio * ratio ^ j = s * ratio ^ Suc j" by (simp add: mult.assoc)
    have k': "k' < n" using Suc.prems(1) Suc by simp
    have acc: "ls_acceptable penv old_loss old_pis max_kl (vsub old (smul (s * ratio * ratio ^ k') stp))"
      using Suc.prems(2) Suc by (simp add: mult.assoc)
    have rej: "\<forall>j<k'. \<not> ls_acceptable penv old_loss old_pis max_kl
                  (vsub old (smul (s * ratio * ratio ^ j) stp))"
    proof (intro allI impI)
      fix j assume "j < k'"
      then have "Suc j < k" using Suc by simp
      with Suc.prems(3) have "\<not> ls_acceptable penv old_loss old_pis max_kl
          (vsub old (smul (s * ratio ^ Suc j) stp))" by blast
      then show "\<not> ls_acceptable penv old_loss old_pis max_kl
          (vsub old (smul (s * ratio * ratio ^ j) stp))" by (simp add: mult.assoc)
    qed
    from Suc.IH[OF k' acc rej] first show ?thesis
      by (simp only: line_search_Suc if_False e Suc)
  qed
qed

lemma step_line_search_eq:
  "step penv params max_kl cg_iters cg_damping n ratio
     = line_search penv params (step_vector penv params max_kl cg_iters cg_damping)
         (fst (surrogate_loss penv None params)) (snd (snd (surrogate_loss penv None params)))
         max_kl ratio n 1"
  by (cases "surrogate_loss penv None params") (simp add: step_def Let_def del: line_search.simps)

lemma step_accepts_iff:
  "step_accepts penv params max_kl new_params
     = ls_acceptable penv (fst (surrogate_loss penv None params))
         (snd (snd (surrogate_loss penv None params))) max_kl new_params"
  by (cases "surrogate_loss penv None params";
      cases "surrogate_loss penv (Some (snd (snd (surrogate_loss penv None params)))) new_params")
     (simp add: step_accepts_def ls_acceptable_def)

text \<open>
  Claim C2. \<open>step\<close> takes the old loss and the old distributions at the parameters on
  entry, keeps these parameters as \<open>old_params\<close> and searches from step size 1.0. Its
  result is the first acceptable attempt: if attempt \<open>k\<close> (of the \<open>ls_max_steps\<close> attempts)
  is acceptable and no earlier one is, the parameters are those of attempt \<open>k\<close>; in
  particular an acceptable first attempt gives \<open>old_params - 1.0 * step\<close>; if no attempt
  is acceptable the parameters are \<open>old_params\<close> again; and parameters other than
  \<open>old_params\<close> are those of an attempt whose surrogate loss is strictly below the old
  loss and whose KL divergence is strictly below \<open>max_kl\<close>.
\<close>

theorem step_first_acceptable_attempt:
  fixes penv :: "'pis policy_env"
  shows
  "(\<forall>k<ls_max_steps.
       step_accepts penv params max_kl (step_attempt penv params max_kl cg_iters cg_damping ratio k)
       \<and> (\<forall>j<k. \<not> step_accepts penv params max_kl
                     (step_attempt penv params max_kl cg_iters cg_damping ratio j))
       \<longrightarrow> step penv params max_kl cg_iters cg_damping ls_max_steps ratio
             = step_attempt penv params max_kl cg_iters cg_damping ratio k)
   \<and> (0 < ls_max_steps
        \<and> step_accepts penv params max_kl
            (vsub params (smul 1 (step_vector penv params max_kl cg_iters cg_damping)))
       \<longrightarrow> step penv params max_kl cg_iters cg_damping ls_max_steps ratio
             = vsub params (smul 1 (step_vector penv params max_kl cg_iters cg_damping)))
   \<and> ((\<forall>k<ls_max_steps. \<not> step_accepts penv params max_kl
                            (step_attempt penv params max_kl cg_iters cg_damping ratio k))
       \<longrightarrow> step penv params max_kl cg_iters cg_damping ls_max_steps ratio = params)
   \<and> (step penv params max_kl cg_iters cg_damping ls_max_steps ratio \<noteq> params
       \<longrightarrow> (\<exists>k<ls_max_steps.
              step penv params max_kl cg_iters cg_damping ls_max_steps ratio
                = step_attempt penv params max_kl cg_iters cg_damping ratio k
            \<and> fst (surrogate_loss penv (Some (snd (snd (surrogate_loss penv None params))))
                     (step penv params max_kl cg_iters cg_damping ls_max_steps ratio))
                < fst (surrogate_loss penv None params)
            \<and> fst (snd (surrogate_loss penv (Some (snd (snd (surrogate_loss penv None params))))
                     (step penv params max_kl cg_iters cg_damping ls_max_steps ratio)))
                < max_kl))"
proof (intro conjI allI impI)
  fix k
  assume k: "k < ls_max_steps"
    and a: "step_accepts penv params max_kl (step_attempt penv params max_kl cg_iters cg_damping ratio k)
       \<and> (\<forall>j<k. \<not> step_accepts penv params max_kl
                     (step_attempt penv params max_kl cg_iters cg_damping ratio j))"
  show "step penv params max_kl cg_iters cg_damping ls_max_steps ratio
             = step_attempt penv params max_kl cg_iters cg_damping ratio k"
    unfolding step_line_search_eq step_attempt_def ls_attempt_def
    using k a
    by (intro line_search_first) (simp_all add: step_accepts_iff step_attempt_def ls_attempt_def)
next
  assume a: "0 < ls_max_steps
        \<and> step_accepts penv params max_kl
            (vsub params (smul 1 (step_vector penv params max_kl cg_iters cg_damping)))"
  then obtain m where "ls_max_steps = Suc m" by (cases ls_max_steps) auto
  with a show "step penv params max_kl cg_iters cg_damping ls_max_steps ratio
             = vsub params (smul 1 (step_vector penv params max_kl cg_iters cg_damping))"
    unfolding step_line_search_eq step_accepts_iff
    by (simp only: line_search_Suc if_True)
next
  assume "\<forall>k<ls_max_steps. \<not> step_accepts penv params max_kl
                            (step_attempt penv params max_kl cg_iters cg_damping ratio k)"
  then show "step penv params max_kl cg_iters cg_damping ls_max_steps ratio = params"
    unfolding step_line_search_eq step_accepts_iff step_attempt_def ls_attempt_def
    by (rule line_search_none)
next
  assume ne: "step penv params max_kl cg_iters cg_damping ls_max_steps ratio \<noteq> params"
  with line_search_result[of penv params "step_vector penv params max_kl cg_iters cg_damping"
      "fst (surrogate_loss penv None params)" "snd (snd (surrogate_loss penv None params))"
      max_kl ratio ls_max_steps 1]
  show "\<exists>k<ls_max_steps.
              step penv params max_kl cg_iters cg_damping ls_max_steps ratio
                = step_attempt penv params max_kl cg_iters cg_damping ratio k
            \<and> fst (surrogate_loss penv (Some (snd (snd (surrogate_loss penv None params))))
                     (step penv params max_kl cg_iters cg_damping ls_max_steps ratio))
                < fst (surrogate_loss penv None params)
            \<and> fst (snd (surrogate_loss penv (Some (snd (snd (surrogate_loss penv None params))))
                     (step penv params max_kl cg_iters cg_damping ls_max_steps ratio)))
                < max_kl"
    unfolding step_line_search_eq step_attempt_def ls_attempt_def ls_acceptable_def
    by metis
qed

lemma demo_kl_step_vector: "step_vector demo_penv_kl [0] 1 10 0 = [1/2]"
proof -
  have four: "sqrt 4 = 2" using real_sqrt_abs[of 2] by simp
  show ?thesis
    by (simp add: step_vector_def demo_penv_kl_def hessian_vector_product_def dot_def vadd_def
          smul_def vdiv_def Let_def four)
qed

lemma demo_step_vector: "step_vector demo_penv [0] 1 10 0 = [1/2]"
proof -
  have four: "sqrt 4 = 2" using real_sqrt_abs[of 2] by simp
  show ?thesis
    by (simp add: step_vector_def demo_penv_def hessian_vector_product_def dot_def vadd_def
          smul_def vdiv_def Let_def four)
qed

lemma demo_kl_attempts:
  "step_attempt demo_penv_kl [0] 1 10 0 (1/2) 0 = [- (1/2)]"
  "step_attempt demo_penv_kl [0] 1 10 0 (1/2) 1 = [- (1/4)]"
  "step_attempt demo_penv_kl [0] 1 10 0 (1/2) 2 = [- (1/8)]"
  by (simp_all add: step_attempt_def ls_attempt_def demo_kl_step_vector vsub_def smul_def power2_eq_square)

theorem step_first_acceptable_attempt_witness:
  "\<not> step_accepts demo_penv_kl [0] 1 (step_attempt demo_penv_kl [0] 1 10 0 (1/2) 0)
   \<and> \<not> step_accepts demo_penv_kl [0] 1 (step_attempt demo_penv_kl [0] 1 10 0 (1/2) 1)
   \<and> step_accepts demo_penv_kl [0] 1 (step_attempt demo_penv_kl [0] 1 10 0 (1/2) 2)
   \<and> step demo_penv_kl [0] 1 10 0 3 (1/2) = step_attempt demo_penv_kl [0] 1 10 0 (1/2) 2
   \<and> step_attempt demo_penv_kl [0] 1 10 0 (1/2) 2 = [- (1/8)]
   \<and> step demo_penv_kl [0] 1 10 0 2 (1/2) = [0]
   \<and> step_accepts demo_penv [0] 1 (vsub [0] (smul 1 (step_vector demo_penv [0] 1 10 0)))
   \<and> step demo_penv [0] 1 10 0 3 (1/2) = vsub [0] (smul 1 (step_vector demo_penv [0] 1 10 0))
   \<and> vsub [0] (smul 1 (step_vector demo_penv [0] 1 10 0)) = [- (1/2)]"
proof -
  have r0: "\<not> step_accepts demo_penv_kl [0] 1 (step_attempt demo_penv_kl [0] 1 10 0 (1/2) 0)"
    and r1: "\<not> step_accepts demo_penv_kl [0] 1 (step_attempt demo_penv_kl [0] 1 10 0 (1/2) 1)"
    and a2: "step_accepts demo_penv_kl [0] 1 (step_attempt demo_penv_kl [0] 1 10 0 (1/2) 2)"
    unfolding demo_kl_attempts by (simp_all add: step_accepts_def demo_penv_kl_def)
  have before2: "\<forall>j<2. \<not> step_accepts demo_penv_kl [0] 1
                     (step_attempt demo_penv_kl [0] 1 10 0 (1/2) j)"
    using r0 r1 by (simp add: less_Suc_eq numeral_2_eq_2)
  have a0: "step_accepts demo_penv [0] 1 (vsub [0] (smul 1 (step_vector demo_penv [0] 1 10 0)))"
    unfolding demo_step_vector by (simp add: step_accepts_def demo_penv_def vsub_def smul_def)
  have v: "vsub [0] (smul 1 (step_vector demo_penv [0] 1 10 0)) = [- (1/2)]"
    by (simp add: demo_step_vector vsub_def smul_def)
  from step_first_acceptable_attempt [of 3 demo_penv_kl "[0]" 1 10 0 "1/2"] a2 before2
  have s3: "step demo_penv_kl [0] 1 10 0 3 (1/2) = step_attempt demo_penv_kl [0] 1 10 0 (1/2) 2"
    by simp
  from step_first_acceptable_attempt [of 2 demo_penv_kl "[0]" 1 10 0 "1/2"] before2
  have s2: "step demo_penv_kl [0] 1 10 0 2 (1/2) = [0]"
    by blast
  from step_first_acceptable_attempt [of 3 demo_penv "[0]" 1 10 0 "1/2"] a0
  have s1: "step demo_penv [0] 1 10 0 3 (1/2) = vsub [0] (smul 1 (step_vector demo_penv [0] 1 10 0))"
    by simp
  from r0 r1 a2 s3 demo_kl_attempts(3) s2 a0 s1 v show ?thesis by blast
qed

lemma smul_vadd: "vadd (smul c u) (smul c v) = smul c (vadd u v)"
  unfolding vadd_def smul_def
  by (induction u v rule: list_induct2') (auto simp: algebra_simps)

lemma smul_smul: "smul a (smul b v) = smul b (smul a v)"
  by (simp add: smul_def mult.left_commute)

lemma dot_smul: "dot (smul c u) (smul c v) = c * c * dot u v"
  unfolding dot_def smul_def
  by (induction u v rule: list_induct2') (auto simp: algebra_simps)

lemma vdiv_smul: "vdiv v c = smul (1 / c) v"
  by (simp add: vdiv_def smul_def)

lemma hvp_linear:
  assumes "\<And>c v. flat_grad2_kl penv params (smul c v) = smul c (flat_grad2_kl penv params v)"
  shows "hessian_vector_product penv damping params (smul c v)
       = smul c (hessian_vector_product penv damping params v)"
  unfolding hessian_vector_product_def assms
  by (simp add: smul_smul[of damping c] smul_vadd)

text \<open>
  Claim C9, amended. The step applied is the conjugate-gradient direction \<open>x\<close> divided by
  \<open>sqrt ((0.5 * x\<^sup>T H x) / max_kl)\<close>; when the Hessian-vector product is linear and
  \<open>x\<^sup>T H x\<close> and \<open>max_kl\<close> are positive, the step then meets the budget exactly:
  \<open>0.5 * step\<^sup>T H step = max_kl\<close>.
\<close>

theorem step_vector_divides:
  fixes penv :: "'pis policy_env"
  shows "step_vector penv params max_kl cg_iters cg_damping
       = vdiv (conjugate_gradient penv (hessian_vector_product penv cg_damping params)
                 (grad_old_loss penv params) cg_iters)
           (sqrt (0.5 * dot (conjugate_gradient penv (hessian_vector_product penv cg_damping params)
                               (grad_old_loss penv params) cg_iters)
                            (hessian_vector_product penv cg_damping params
                               (conjugate_gradient penv (hessian_vector_product penv cg_damping params)
                                  (grad_old_loss penv params) cg_iters)) / max_kl))
     \<and> ((\<forall>c v. flat_grad2_kl penv params (smul c v) = smul c (flat_grad2_kl penv params v))
          \<and> 0 < max_kl
          \<and> 0 < dot (conjugate_gradient penv (hessian_vector_product penv cg_damping params)
                        (grad_old_loss penv params) cg_iters)
                     (hessian_vector_product penv cg_damping params
                        (conjugate_gradient penv (hessian_vector_product penv cg_damping params)
                           (grad_old_loss penv params) cg_iters))
        \<longrightarrow> 0.5 * dot (step_vector penv params max_kl cg_iters cg_damping)
                      (hessian_vector_product penv cg_damping params
                         (step_vector penv params max_kl cg_iters cg_damping)) = max_kl)"
proof -
  define H where "H = hessian_vector_product penv cg_damping params"
  define x where "x = conjugate_gradient penv H (grad_old_loss penv params) cg_iters"
  define shs where "shs = 0.5 * dot x (H x)"
  define L where "L = sqrt (shs / max_kl)"
  have sv: "step_vector penv params max_kl cg_iters cg_damping = vdiv x L"
    by (simp add: step_vector_def Let_def H_def x_def shs_def L_def)
  have budget: "0.5 * dot (vdiv x L) (H (vdiv x L)) = max_kl"
    if lin: "\<forall>c v. flat_grad2_kl penv params (smul c v) = smul c (flat_grad2_kl penv params v)"
      and mk: "0 < max_kl" and pos: "0 < dot x (H x)"
  proof -
    have Hl: "H (smul (1 / L) x) = smul (1 / L) (H x)"
      unfolding H_def using lin by (intro hvp_linear) blast
    have shs_pos: "0 < shs" using pos by (simp add: shs_def)
    then have q: "0 < shs / max_kl" using mk by simp
    then have "0 \<le> shs / max_kl" by simp
    then have LL: "L * L = shs / max_kl" unfolding L_def by (rule real_sqrt_mult_self[unfolded abs_of_nonneg] | simp only: real_sqrt_mult_self abs_of_nonneg)
    have Lne: "L \<noteq> 0" using shs_pos mk by (simp add: L_def)
    have "0.5 * dot (vdiv x L) (H (vdiv x L)) = (1 / L) * (1 / L) * shs"
      by (simp add: vdiv_smul Hl dot_smul shs_def)
    also have "\<dots> = shs / (L * L)" by simp
    also have "\<dots> = max_kl" using shs_pos mk by (simp add: LL)
    finally show ?thesis .
  qed
  show ?thesis
    using sv budget
    by (simp add: H_def [symmetric] x_def [symmetric] shs_def [symmetric] L_def [symmetric]
          del: One_nat_def)
       (auto simp: H_def x_def shs_def L_def)
qed

theorem step_vector_divides_witness:
  "(\<forall>c v. flat_grad2_kl demo_penv [0] (smul c v) = smul c (flat_grad2_kl demo_penv [0] v))
   \<and> 0.5 * dot (step_vector demo_penv [0] 1 10 0)
              (hessian_vector_product demo_penv 0 [0] (step_vector demo_penv [0] 1 10 0)) = 1"
proof -
  have lin: "\<forall>c v. flat_grad2_kl demo_penv [0] (smul c v) = smul c (flat_grad2_kl demo_penv [0] v)"
    by (simp add: demo_penv_def smul_smul)
  have pos: "0 < dot (conjugate_gradient demo_penv (hessian_vector_product demo_penv 0 [0])
                        (grad_old_loss demo_penv [0]) 10)
                     (hessian_vector_product demo_penv 0 [0]
                        (conjugate_gradient demo_penv (hessian_vector_product demo_penv 0 [0])
                           (grad_old_loss demo_penv [0]) 10))"
    by (simp add: demo_penv_def hessian_vector_product_def dot_def vadd_def smul_def)
  have mk: "0 < (1::real)" by simp
  from step_vector_divides [of demo_penv "[0]" 1 10 0] lin mk pos
  have "0.5 * dot (step_vector demo_penv [0] 1 10 0)
              (hessian_vector_product demo_penv 0 [0] (step_vector demo_penv [0] 1 10 0)) = 1"
    by blast
  with lin show ?thesis by blast
qed

text \<open>
  Claim C9, as stated, fails: with direction \<open>[1]\<close> and \<open>sqrt ((0.5 * x\<^sup>T H x) / max_kl) = 2\<close>
  the step is \<open>[1/2]\<close>, the direction divided by the factor, and not the direction scaled by
  it, \<open>[2]\<close>.
\<close>

theorem step_vector_scaling_counterexample:
  "conjugate_gradient demo_penv (hessian_vector_product demo_penv 0 [0])
      (grad_old_loss demo_penv [0]) 10 = [1]
   \<and> sqrt (0.5 * dot [1] (hessian_vector_product demo_penv 0 [0] [1]) / 1) = 2
   \<and> step_vector demo_penv [0] 1 10 0 = [1/2]
   \<and> step_vector demo_penv [0] 1 10 0 \<noteq> smul 2 [1]"
proof -
  have four: "sqrt 4 = 2" using real_sqrt_abs[of 2] by simp
  show ?thesis
    by (simp add: step_vector_def demo_penv_def hessian_vector_product_def dot_def vadd_def
          smul_def vdiv_def Let_def four)
qed

section \<open>inner_loss: the run of its loops\<close>

lemma duplicate_flag_iff: "duplicate_flag action_memory actions \<longleftrightarrow> actions \<in> set action_memory"
  by (induction action_memory) (auto simp: duplicate_def)

lemma sampling_loop_one:
  "sampling_loop env itm ar (Suc i) mem a w =
     (case sampling_loop env itm ar (Suc 0) mem a w of
        (m1, a1, w1) \<Rightarrow> sampling_loop env itm ar i m1 a1 w1)"
  by (cases "decode_chain_sampling env itm w")
     (auto simp: Let_def split: prod.splits)

lemma sampling_loop_add:
  "sampling_loop env itm ar (i + j) mem a w =
     (case sampling_loop env itm ar i mem a w of
        (m1, a1, w1) \<Rightarrow> sampling_loop env itm ar j m1 a1 w1)"
proof (induction i arbitrary: mem a w)
  case 0
  then show ?case by simp
next
  case (Suc i)
  obtain m1 a1 w1 where one: "sampling_loop env itm ar (Suc 0) mem a w = (m1, a1, w1)"
    by (metis prod.exhaust)
  have "sampling_loop env itm ar (Suc i + j) mem a w = sampling_loop env itm ar (i + j) m1 a1 w1"
    using one by (simp only: add_Suc sampling_loop_one[of env itm ar "i + j"] prod.case)
  also have "\<dots> = (case sampling_loop env itm ar i m1 a1 w1 of
        (m2, a2, w2) \<Rightarrow> sampling_loop env itm ar j m2 a2 w2)"
    by (rule Suc.IH)
  also have "sampling_loop env itm ar i m1 a1 w1 = sampling_loop env itm ar (Suc i) mem a w"
    using one by (simp only: sampling_loop_one[of env itm ar i] prod.case)
  finally show ?case .
qed

lemma sample_at_Suc:
  "sampling_loop env itm ar (Suc 0) mem a w = (m1, a1, w1) \<Longrightarrow>
   sample_at env itm ar mem a w (Suc i) = sample_at env itm ar m1 a1 w1 i"
  unfolding sample_at_def by (subst sampling_loop_one) simp

lemma loop_draws_Suc:
  assumes "sampling_loop env itm ar (Suc 0) mem a w = (m1, a1, w1)"
  shows "loop_draws env itm ar (Suc n) mem a w
       = sample_at env itm ar mem a w 0 # loop_draws env itm ar n m1 a1 w1"
proof -
  have "[0..<Suc n] = 0 # map Suc [0..<n]"
    by (simp only: map_Suc_upt upt_conv_Cons[of 0 "Suc n"] zero_less_Suc)
  then show ?thesis
    unfolding loop_draws_def by (simp add: sample_at_Suc[OF assms] del: upt_Suc)
qed

lemma sampling_loop_first_samples:
  assumes "sampling_loop env itm ar n mem a w = (mem', a', w')"
  shows "mem' = mem @ map ks_actions (first_samples mem (loop_draws env itm ar n mem a w))
      \<and> net_policies a' = net_policies a
           @ map ks_logits (first_samples mem (loop_draws env itm ar n mem a w))
      \<and> net_actions a' = net_actions a
           @ concat (map ks_actions (first_samples mem (loop_draws env itm ar n mem a w)))
      \<and> net_advantages a' = net_advantages a
           @ concat (map (\<lambda>k. replicate (length (ks_actions k)) (ks_reward k - ar))
                       (first_samples mem (loop_draws env itm ar n mem a w)))
      \<and> total_samples a' = total_samples a + n
      \<and> skipped_samples a' + length (first_samples mem (loop_draws env itm ar n mem a w))
           = skipped_samples a + n
      \<and> w' = w\<lparr>ext := ext w'\<rparr>"
  using assms
proof (induction n arbitrary: mem a w)
  case 0
  then show ?case by (auto simp: loop_draws_def)
next
  case (Suc n)
  obtain r acts x1 where dec: "decode_chain_sampling env itm w = ((r, acts), x1)"
    by (metis prod.exhaust)
  define w1 where "w1 = w\<lparr>ext := x1\<rparr>"
  define k0 where "k0 = \<lparr>ks_logits = r, ks_actions = acts, ks_reward = fst (random_random env x1)\<rparr>"
  have s0: "sample_at env itm ar mem a w 0 = k0"
    by (simp add: sample_at_def dec k0_def)
  show ?case
  proof (cases "acts \<in> set mem")
    case True
    define a1 where "a1 = a\<lparr>total_samples := total_samples a + 1,
                            skipped_samples := skipped_samples a + 1\<rparr>"
    have one: "sampling_loop env itm ar (Suc 0) mem a w = (mem, a1, w1)"
      using dec True by (simp add: duplicate_flag_iff w1_def a1_def)
    have rest: "sampling_loop env itm ar n mem a1 w1 = (mem', a', w')"
      using Suc.prems one by (simp only: sampling_loop_one[of env itm ar n] prod.case)
    define K where "K = first_samples mem (loop_draws env itm ar n mem a1 w1)"
    have fs: "first_samples mem (loop_draws env itm ar (Suc n) mem a w) = K"
      using True by (simp add: loop_draws_Suc[OF one] s0 k0_def K_def)
    from Suc.IH[OF rest] show ?thesis
      unfolding fs K_def [symmetric] by (auto simp: a1_def w1_def)
  next
    case False
    obtain rw x2 where rnd: "random_random env x1 = (rw, x2)" by (metis prod.exhaust)
    define a1 where "a1 = a\<lparr>total_samples := total_samples a + 1,
        net_policies := net_policies a @ [r],
        net_actions := net_actions a @ acts,
        net_advantages := net_advantages a @ replicate (length acts) (rw - ar)\<rparr>"
    define w2 where "w2 = w\<lparr>ext := x2\<rparr>"
    have one: "sampling_loop env itm ar (Suc 0) mem a w = (mem @ [acts], a1, w2)"
      using dec False rnd by (simp add: duplicate_flag_iff w2_def a1_def)
    have rest: "sampling_loop env itm ar n (mem @ [acts]) a1 w2 = (mem', a', w')"
      using Suc.prems one by (simp only: sampling_loop_one[of env itm ar n] prod.case)
    define K where "K = first_samples (mem @ [acts]) (loop_draws env itm ar n (mem @ [acts]) a1 w2)"
    have fs: "first_samples mem (loop_draws env itm ar (Suc n) mem a w) = k0 # K"
      using False by (simp add: loop_draws_Suc[OF one] s0 k0_def K_def)
    from Suc.IH[OF rest] show ?thesis
      unfolding fs K_def [symmetric] by (auto simp: a1_def w2_def k0_def rnd)
  qed
qed

lemma distinct_first_samples:
  "distinct seen \<Longrightarrow> distinct (seen @ map ks_actions (first_samples seen ks))"
proof (induction ks arbitrary: seen)
  case Nil
  then show ?case by simp
next
  case (Cons k ks)
  show ?case
  proof (cases "ks_actions k \<in> set seen")
    case True
    with Cons show ?thesis by simp
  next
    case False
    with Cons.prems have "distinct (seen @ [ks_actions k])" by simp
    from Cons.IH[OF this] False show ?thesis by simp
  qed
qed

lemma set_first_samples:
  "set seen \<union> set (map ks_actions (first_samples seen ks)) = set seen \<union> set (map ks_actions ks)"
proof (induction ks arbitrary: seen)
  case Nil
  then show ?case by simp
next
  case (Cons k ks)
  show ?case
  proof (cases "ks_actions k \<in> set seen")
    case True
    with Cons.IH[of seen] show ?thesis by auto
  next
    case False
    with Cons.IH[of "seen @ [ks_actions k]"] show ?thesis by auto
  qed
qed

lemma first_samples_subset: "set (first_samples seen ks) \<subseteq> set ks"
proof (induction ks arbitrary: seen)
  case Nil
  then show ?case by simp
next
  case (Cons k ks)
  show ?case
    using Cons.IH[of seen] Cons.IH[of "seen @ [ks_actions k]"] by auto
qed

lemma length_first_samples: "length (first_samples seen ks) \<le> length ks"
proof (induction ks arbitrary: seen)
  case Nil
  then show ?case by simp
next
  case (Cons k ks)
  show ?case
    using Cons.IH[of seen] Cons.IH[of "seen @ [ks_actions k]"] by auto
qed

lemma example_loop_one:
  "example_loop env ml (itm # items) a w =
     (case example_loop env ml [itm] a w of (a1, w1) \<Rightarrow> example_loop env ml items a1 w1)"
  by (cases "decode_chain_argmax env itm w") (auto split: prod.splits)

lemma example_loop_append:
  "example_loop env ml (xs @ ys) a w =
     (case example_loop env ml xs a w of (a1, w1) \<Rightarrow> example_loop env ml ys a1 w1)"
proof (induction xs arbitrary: a w)
  case Nil
  then show ?case by simp
next
  case (Cons x xs)
  obtain a1 w1 where one: "example_loop env ml [x] a w = (a1, w1)" by (metis prod.exhaust)
  have "example_loop env ml ((x # xs) @ ys) a w = example_loop env ml (xs @ ys) a1 w1"
    using one by (simp only: append_Cons example_loop_one[of env ml x "xs @ ys"] prod.case)
  also have "\<dots> = (case example_loop env ml xs a1 w1 of
        (a2, w2) \<Rightarrow> example_loop env ml ys a2 w2)"
    by (rule Cons.IH)
  also have "example_loop env ml xs a1 w1 = example_loop env ml (x # xs) a w"
    using one by (simp only: example_loop_one[of env ml x xs] prod.case)
  finally show ?case .
qed

lemma example_loop_single:
  assumes "random_random env (ext w) = (ar, x1)"
    and "sampling_loop env itm ar (self_samples ml) [] a (w\<lparr>ext := x1\<rparr>) = (mem, a1, w1)"
  shows "example_loop env ml [itm] a w = (a1, w1)"
  using assms by (cases "decode_chain_argmax env itm w") simp

lemma baseline_at_0: "baseline_at env ml (itm # items) a w 0 = fst (random_random env (ext w))"
  by (simp add: baseline_at_def)

lemma draws_at_0:
  "random_random env (ext w) = (ar, x1) \<Longrightarrow>
   draws_at env ml (itm # items) a w 0
     = loop_draws env itm ar (self_samples ml) [] a (w\<lparr>ext := x1\<rparr>)"
  by (simp add: draws_at_def)

lemma at_Suc:
  assumes "example_loop env ml [itm] a w = (a1, w1)"
  shows "baseline_at env ml (itm # items) a w (Suc j) = baseline_at env ml items a1 w1 j"
    and "draws_at env ml (itm # items) a w (Suc j) = draws_at env ml items a1 w1 j"
    and "group_at env ml (itm # items) a w (Suc j) = group_at env ml items a1 w1 j"
proof -
  have e: "example_loop env ml (take (Suc j) (itm # items)) a w
      = example_loop env ml (take j items) a1 w1"
    using assms by (simp only: take_Suc_Cons example_loop_one[of env ml itm "take j items"] prod.case)
  show b: "baseline_at env ml (itm # items) a w (Suc j) = baseline_at env ml items a1 w1 j"
    unfolding baseline_at_def e by simp
  show d: "draws_at env ml (itm # items) a w (Suc j) = draws_at env ml items a1 w1 j"
    unfolding draws_at_def e by simp
  show "group_at env ml (itm # items) a w (Suc j) = group_at env ml items a1 w1 j"
    unfolding group_at_def b d by simp
qed

lemma run_groups_Cons:
  assumes "example_loop env ml [itm] a w = (a1, w1)"
  shows "run_groups env ml (itm # items) a w
       = group_at env ml (itm # items) a w 0 # run_groups env ml items a1 w1"
proof -
  have "[0..<Suc (length items)] = 0 # map Suc [0..<length items]"
    by (simp only: map_Suc_upt upt_conv_Cons[of 0 "Suc (length items)"] zero_less_Suc)
  then show ?thesis
    unfolding run_groups_def by (simp add: at_Suc(3)[OF assms] del: upt_Suc)
qed

lemma flat_kept_Cons:
  "flat_kept (g # groups) = map (Pair (eg_baseline g)) (eg_kept g) @ flat_kept groups"
  by (simp add: flat_kept_def)

lemma example_loop_run_groups:
  assumes "example_loop env ml items a w = (a', w')"
  shows "net_policies a' = net_policies a
           @ map (\<lambda>p. ks_logits (snd p)) (flat_kept (run_groups env ml items a w))
     \<and> net_actions a' = net_actions a
           @ concat (map (\<lambda>p. ks_actions (snd p)) (flat_kept (run_groups env ml items a w)))
     \<and> net_advantages a' = net_advantages a
          @ concat (map (\<lambda>p. replicate (length (ks_actions (snd p))) (advantage (fst p) (snd p)))
                      (flat_kept (run_groups env ml items a w)))
     \<and> total_samples a' = total_samples a + self_samples ml * length items
     \<and> skipped_samples a' + length (flat_kept (run_groups env ml items a w))
          = skipped_samples a + self_samples ml * length items
     \<and> w' = w\<lparr>ext := ext w'\<rparr>"
  using assms
proof (induction items arbitrary: a w)
  case Nil
  then show ?case by (auto simp: flat_kept_def run_groups_def)
next
  case (Cons itm items)
  obtain ar x1 where rnd: "random_random env (ext w) = (ar, x1)" by (metis prod.exhaust)
  define w1 where "w1 = w\<lparr>ext := x1\<rparr>"
  obtain mem a1 w2 where sl:
    "sampling_loop env itm ar (self_samples ml) [] a w1 = (mem, a1, w2)"
    by (metis prod.exhaust)
  have one: "example_loop env ml [itm] a w = (a1, w2)"
    using rnd sl unfolding w1_def by (rule example_loop_single)
  have rest: "example_loop env ml items a1 w2 = (a', w')"
    using Cons.prems one by (simp only: example_loop_one[of env ml itm items] prod.case)
  define ks where "ks = first_samples [] (loop_draws env itm ar (self_samples ml) [] a w1)"
  define G where "G = run_groups env ml items a1 w2"
  have g0: "group_at env ml (itm # items) a w 0 = \<lparr>eg_item = itm, eg_baseline = ar, eg_kept = ks\<rparr>"
    by (simp add: group_at_def baseline_at_0 draws_at_0[OF rnd] rnd ks_def w1_def)
  have rg: "run_groups env ml (itm # items) a w
      = \<lparr>eg_item = itm, eg_baseline = ar, eg_kept = ks\<rparr> # G"
    by (simp only: run_groups_Cons[OF one] g0 G_def)
  have fk: "flat_kept (run_groups env ml (itm # items) a w) = map (Pair ar) ks @ flat_kept G"
    by (simp add: rg flat_kept_Cons)
  from sampling_loop_first_samples[OF sl] have sk:
      "net_policies a1 = net_policies a @ map ks_logits ks"
      "net_actions a1 = net_actions a @ concat (map ks_actions ks)"
      "net_advantages a1 = net_advantages a
           @ concat (map (\<lambda>k. replicate (length (ks_actions k)) (ks_reward k - ar)) ks)"
      "total_samples a1 = total_samples a + self_samples ml"
      "skipped_samples a1 + length ks = skipped_samples a + self_samples ml"
      "w2 = w1\<lparr>ext := ext w2\<rparr>"
    unfolding ks_def by blast+
  have w2w: "w2 = w\<lparr>ext := ext w2\<rparr>" using sk(6) by (simp add: w1_def)
  from Cons.IH[OF rest] have ih:
      "net_policies a' = net_policies a1 @ map (\<lambda>p. ks_logits (snd p)) (flat_kept G)"
      "net_actions a' = net_actions a1 @ concat (map (\<lambda>p. ks_actions (snd p)) (flat_kept G))"
      "net_advantages a' = net_advantages a1
          @ concat (map (\<lambda>p. replicate (length (ks_actions (snd p))) (advantage (fst p) (snd p)))
                      (flat_kept G))"
      "total_samples a' = total_samples a1 + self_samples ml * length items"
      "skipped_samples a' + length (flat_kept G)
          = skipped_samples a1 + self_samples ml * length items"
      "w' = w2\<lparr>ext := ext w'\<rparr>"
    unfolding G_def by blast+
  have c3: "net_policies a' = net_policies a
       @ map (\<lambda>p. ks_logits (snd p)) (flat_kept (run_groups env ml (itm # items) a w))"
    by (simp add: ih(1) sk(1) fk comp_def)
  have c4: "net_actions a' = net_actions a
       @ concat (map (\<lambda>p. ks_actions (snd p)) (flat_kept (run_groups env ml (itm # items) a w)))"
    by (simp add: ih(2) sk(2) fk comp_def)
  have c5: "net_advantages a' = net_advantages a
          @ concat (map (\<lambda>p. replicate (length (ks_actions (snd p))) (advantage (fst p) (snd p)))
                      (flat_kept (run_groups env ml (itm # items) a w)))"
    by (simp add: ih(3) sk(3) fk comp_def advantage_def)
  have c6: "total_samples a' = total_samples a + self_samples ml * length (itm # items)"
    by (simp add: ih(4) sk(4))
  have c7: "skipped_samples a' + length (flat_kept (run_groups env ml (itm # items) a w))
          = skipped_samples a + self_samples ml * length (itm # items)"
    using ih(5) sk(5) by (simp add: fk)
  have c8: "w' = w\<lparr>ext := ext w'\<rparr>"
    by (subst ih(6), subst w2w) simp
  show ?case
    by (intro conjI c3 c4 c5 c6 c7 c8)
qed

lemma length_draws_at: "length (draws_at env ml items a w j) = self_samples ml"
  by (simp add: draws_at_def loop_draws_def split: prod.splits)

lemma length_run_groups: "length (run_groups env ml items a w) = length items"
  by (simp add: run_groups_def)

lemma run_groups_nth:
  "j < length items \<Longrightarrow> run_groups env ml items a w ! j = group_at env ml items a w j"
  by (simp add: run_groups_def del: upt_Suc)

lemma eg_kept_group_at:
  "eg_kept (group_at env ml items a w j) = first_samples [] (draws_at env ml items a w j)"
  by (simp add: group_at_def)

lemma map_snd_flat_kept: "map snd (flat_kept groups) = concat (map eg_kept groups)"
  by (induction groups) (simp_all add: flat_kept_def comp_def)

lemma length_flat_kept: "length (flat_kept groups) = (\<Sum>g \<leftarrow> groups. length (eg_kept g))"
  by (induction groups) (simp_all add: flat_kept_def)

lemma sum_list_diff:
  "(\<forall>g \<in> set groups. f g \<le> (n :: nat)) \<Longrightarrow>
   (\<Sum>g \<leftarrow> groups. n - f g) + (\<Sum>g \<leftarrow> groups. f g) = n * length groups"
  by (induction groups) auto

lemma run_groups_kept_le:
  "\<forall>g \<in> set (run_groups env ml items a w). length (eg_kept g) \<le> self_samples ml"
proof
  fix g assume "g \<in> set (run_groups env ml items a w)"
  then obtain j where "g = group_at env ml items a w j" by (auto simp: run_groups_def)
  then have "length (eg_kept g) \<le> length (draws_at env ml items a w j)"
    by (simp add: eg_kept_group_at length_first_samples)
  then show "length (eg_kept g) \<le> self_samples ml" by (simp add: length_draws_at)
qed

lemma length_concat_replicate:
  "length (concat (map (\<lambda>k. replicate (length (f k)) (c k)) ks)) = length (concat (map f ks))"
  by (induction ks) auto

lemma sum_map2_replicate:
  "length xs = n \<Longrightarrow> sum_list (map2 (*) (replicate n c) xs) = (\<Sum>x \<leftarrow> xs. c * (x :: real))"
  by (induction xs arbitrary: n) auto

lemma weighted_flat:
  assumes "\<forall>p \<in> set ps. length (ks_logits (snd p)) = length (ks_actions (snd p))"
  shows "sum_list (map2 (*)
            (concat (map (\<lambda>p. replicate (length (ks_actions (snd p))) (advantage (fst p) (snd p))) ps))
            (map (\<lambda>(row, a). log_softmax row ! a)
               (zip (concat (map (\<lambda>p. ks_logits (snd p)) ps))
                    (concat (map (\<lambda>p. ks_actions (snd p)) ps)))))
       = (\<Sum>p \<leftarrow> ps. kept_weighted (fst p) (snd p))"
  using assms
proof (induction ps)
  case Nil
  then show ?case by simp
next
  case (Cons p ps)
  define r where "r = ks_logits (snd p)"
  define acts where "acts = ks_actions (snd p)"
  define c where "c = advantage (fst p) (snd p)"
  define X where "X = map (\<lambda>(row, a). log_softmax row ! a) (zip r acts)"
  have len: "length r = length acts" using Cons.prems by (simp add: r_def acts_def)
  have lx: "length X = length acts" by (simp add: X_def len)
  have ih: "sum_list (map2 (*)
            (concat (map (\<lambda>p. replicate (length (ks_actions (snd p))) (advantage (fst p) (snd p))) ps))
            (map (\<lambda>(row, a). log_softmax row ! a)
               (zip (concat (map (\<lambda>p. ks_logits (snd p)) ps))
                    (concat (map (\<lambda>p. ks_actions (snd p)) ps)))))
       = (\<Sum>p \<leftarrow> ps. kept_weighted (fst p) (snd p))"
    using Cons.IH Cons.prems by simp
  have kw: "kept_weighted (fst p) (snd p) = (\<Sum>x \<leftarrow> X. c * x)"
    by (simp add: kept_weighted_def X_def r_def acts_def c_def comp_def case_prod_unfold)
  have "sum_list (map2 (*)
            (concat (map (\<lambda>p. replicate (length (ks_actions (snd p))) (advantage (fst p) (snd p))) (p # ps)))
            (map (\<lambda>(row, a). log_softmax row ! a)
               (zip (concat (map (\<lambda>p. ks_logits (snd p)) (p # ps)))
                    (concat (map (\<lambda>p. ks_actions (snd p)) (p # ps))))))
      = sum_list (map2 (*) (replicate (length acts) c) X)
        + sum_list (map2 (*)
            (concat (map (\<lambda>p. replicate (length (ks_actions (snd p))) (advantage (fst p) (snd p))) ps))
            (map (\<lambda>(row, a). log_softmax row ! a)
               (zip (concat (map (\<lambda>p. ks_logits (snd p)) ps))
                    (concat (map (\<lambda>p. ks_actions (snd p)) ps)))))"
    using len lx
    by (simp add: r_def [symmetric] acts_def [symmetric] c_def [symmetric] zip_append X_def)
  also have "\<dots> = (\<Sum>x \<leftarrow> X. c * x) + (\<Sum>p \<leftarrow> ps. kept_weighted (fst p) (snd p))"
    by (simp add: ih sum_map2_replicate[OF lx])
  finally show ?case by (simp add: kw)
qed

lemma group_weighted_flat:
  "sum_list (map group_weighted groups) = (\<Sum>p \<leftarrow> flat_kept groups. kept_weighted (fst p) (snd p))"
  by (induction groups) (simp_all add: flat_kept_def group_weighted_def comp_def)

lemma group_tokens_flat:
  "sum_list (map group_tokens groups)
     = length (concat (map (\<lambda>p. ks_actions (snd p)) (flat_kept groups)))"
  by (induction groups) (simp_all add: flat_kept_def group_tokens_def comp_def length_concat)

lemma policy_loss_Inr:
  assumes "policy_loss policies actions advantages = Inr v"
  shows "actions \<noteq> [] \<and> v = - (sum_list (map2 (*) advantages
                        (map (\<lambda>(row, a). log_softmax row ! a) (zip (concat policies) actions)))
                      / real (length actions))"
  using assms by (auto simp: policy_loss_def Let_def split: if_splits)

lemma inner_loss_unfold:
  "inner_loss env ml task weights w =
     (case example_loop env ml (pack_batch_no_out env [task]) acc0
             (case weights of None \<Rightarrow> w | Some ws \<Rightarrow> insert_new_parameter env ws True w) of
        (a, w2) \<Rightarrow>
          if net_policies a = [] then
            Inr (PyFloat 0, total_samples a, skipped_samples a,
                 w2\<lparr>log_info := log_info w2 @ [''The net_policies is empty!'']\<rparr>)
          else
            (case policy_loss (net_policies a) (net_actions a) (net_advantages a) of
               Inl e \<Rightarrow> Inl e
             | Inr v \<Rightarrow>
                 Inr (LossTensor v
                        (loss_graph env w2 (concat (net_policies a)) (net_actions a)
                           (net_advantages a)),
                      total_samples a, skipped_samples a, w2)))"
  by (simp add: inner_loss_def establish_support_set_def acc0_def Let_def)

lemma inner_loss_items_eq: "inner_loss_items env task = pack_batch_no_out env [task]"
  by (simp add: inner_loss_items_def establish_support_set_def)

lemma inner_loss_acc_groups:
  "net_policies (inner_loss_acc env ml task weights w)
      = map ks_logits (inner_loss_kept env ml task weights w)
   \<and> net_actions (inner_loss_acc env ml task weights w)
      = concat (map ks_actions (inner_loss_kept env ml task weights w))
   \<and> net_advantages (inner_loss_acc env ml task weights w)
      = concat (map (\<lambda>p. replicate (length (ks_actions (snd p))) (advantage (fst p) (snd p)))
                  (flat_kept (inner_loss_groups env ml task weights w)))
   \<and> total_samples (inner_loss_acc env ml task weights w)
      = self_samples ml * length (inner_loss_items env task)
   \<and> skipped_samples (inner_loss_acc env ml task weights w)
        + length (inner_loss_kept env ml task weights w)
      = self_samples ml * length (inner_loss_items env task)"
proof -
  define W where "W = inner_loss_world env weights w"
  define items where "items = inner_loss_items env task"
  obtain a w2 where el: "example_loop env ml items acc0 W = (a, w2)" by (metis prod.exhaust)
  have A: "inner_loss_acc env ml task weights w = a"
    by (simp add: inner_loss_acc_def items_def [symmetric] W_def [symmetric] el)
  have G: "inner_loss_groups env ml task weights w = run_groups env ml items acc0 W"
    by (simp add: inner_loss_groups_def items_def W_def)
  have K: "inner_loss_kept env ml task weights w = map snd (flat_kept (run_groups env ml items acc0 W))"
    by (simp add: inner_loss_kept_def G map_snd_flat_kept)
  from example_loop_run_groups[OF el] show ?thesis
    unfolding A K G items_def [symmetric]
    by (simp add: acc0_def comp_def)
qed

lemma inner_loss_result:
  assumes "inner_loss env ml task weights w = Inr (l, n_total, n_skipped, w')"
  shows "n_total = total_samples (inner_loss_acc env ml task weights w)
     \<and> n_skipped = skipped_samples (inner_loss_acc env ml task weights w)
     \<and> (net_policies (inner_loss_acc env ml task weights w) = [] \<longrightarrow> l = PyFloat 0)
     \<and> (net_policies (inner_loss_acc env ml task weights w) \<noteq> [] \<longrightarrow>
          net_actions (inner_loss_acc env ml task weights w) \<noteq> []
        \<and> is_tensor l
        \<and> loss_value l = - (token_weighted (inner_loss_acc env ml task weights w)
                              / real (length (net_actions (inner_loss_acc env ml task weights w)))))"
proof -
  define W where "W = (case weights of None \<Rightarrow> w | Some ws \<Rightarrow> insert_new_parameter env ws True w)"
  obtain a w2 where el: "example_loop env ml (pack_batch_no_out env [task]) acc0 W = (a, w2)"
    by (metis prod.exhaust)
  have A: "inner_loss_acc env ml task weights w = a"
    by (simp add: inner_loss_acc_def inner_loss_items_eq inner_loss_world_def W_def [symmetric] el)
  show ?thesis
  proof (cases "net_policies a = []")
    case True
    with assms el show ?thesis
      unfolding A by (auto simp: inner_loss_unfold W_def [symmetric])
  next
    case False
    with assms el obtain v where
      pl: "policy_loss (net_policies a) (net_actions a) (net_advantages a) = Inr v"
      and l: "l = LossTensor v (loss_graph env w2 (concat (net_policies a)) (net_actions a)
                           (net_advantages a))"
      and c: "n_total = total_samples a" "n_skipped = skipped_samples a"
      by (auto simp: inner_loss_unfold W_def [symmetric] split: sum.splits)
    from policy_loss_Inr[OF pl] False l c show ?thesis
      unfolding A by (simp add: token_weighted_def)
  qed
qed

lemma sample_at_aligned:
  assumes "\<forall>itm w0. length (fst (fst (decode_chain_sampling env itm w0)))
                   = length (snd (fst (decode_chain_sampling env itm w0)))"
  shows "length (ks_logits (sample_at env itm ar mem a w i))
       = length (ks_actions (sample_at env itm ar mem a w i))"
proof -
  obtain mi ai wi where s: "sampling_loop env itm ar i mem a w = (mi, ai, wi)"
    by (metis prod.exhaust)
  obtain r acts x1 where d: "decode_chain_sampling env itm wi = ((r, acts), x1)"
    by (metis prod.exhaust)
  from assms[rule_format, of itm wi] d show ?thesis
    by (simp add: sample_at_def s)
qed

lemma run_groups_aligned:
  assumes "\<forall>itm w0. length (fst (fst (decode_chain_sampling env itm w0)))
                   = length (snd (fst (decode_chain_sampling env itm w0)))"
  shows "\<forall>p \<in> set (flat_kept (run_groups env ml items a w)).
           length (ks_logits (snd p)) = length (ks_actions (snd p))"
proof
  fix p assume "p \<in> set (flat_kept (run_groups env ml items a w))"
  then obtain j where "snd p \<in> set (eg_kept (group_at env ml items a w j))"
    by (auto simp: flat_kept_def run_groups_def)
  then have "snd p \<in> set (draws_at env ml items a w j)"
    using first_samples_subset by (auto simp: eg_kept_group_at)
  then obtain itm ar n mem a0 w0 i where "snd p = sample_at env itm ar mem a0 w0 i"
    by (auto simp: draws_at_def loop_draws_def split: prod.splits)
  then show "length (ks_logits (snd p)) = length (ks_actions (snd p))"
    by (simp add: sample_at_aligned[OF assms])
qed

lemma demo_inner_loss:
  "inner_loss demo_env demo_ml [0, 1] None demo_world
     = Inr (LossTensor (ln 2 / 3) demo_graph_all, 6, 3, demo_world\<lparr>ext := (6, 5)\<rparr>)"
proof -
  have g: "(\<lambda>t. if t < Suc (Suc 0) then Some (1 :: real) else None) = demo_graph_all"
    by (simp add: fun_eq_iff demo_graph_all_def)
  show ?thesis
    by (simp add: inner_loss_unfold demo_env_def demo_ml_def demo_world_def acc0_def
          numeral_3_eq_3 duplicate_def policy_loss_def log_softmax_def Let_def g)
qed

lemma demo_inner_loss_items: "inner_loss_items demo_env task = task"
  by (simp add: inner_loss_items_def establish_support_set_def demo_env_def)

lemma demo_inner_loss_draws:
  "inner_loss_draws demo_env demo_ml [0, 1] None demo_world 0
     = [demo_draw 0 (1/4), demo_draw 1 (1/2), demo_draw 1 (3/4)]"
  "inner_loss_draws demo_env demo_ml [0, 1] None demo_world 1
     = [demo_draw 1 1, demo_draw 1 (5/4), demo_draw 1 (5/4)]"
  unfolding inner_loss_draws_def demo_inner_loss_items inner_loss_world_def
  by (simp_all add: draws_at_def loop_draws_def sample_at_def demo_env_def demo_ml_def
        demo_world_def acc0_def numeral_3_eq_3 duplicate_def demo_draw_def)

lemma demo_inner_loss_groups:
  "inner_loss_groups demo_env demo_ml [0, 1] None demo_world
     = [\<lparr>eg_item = 0, eg_baseline = 0, eg_kept = [demo_draw 0 (1/4), demo_draw 1 (1/2)]\<rparr>,
        \<lparr>eg_item = 1, eg_baseline = 3/4, eg_kept = [demo_draw 1 1]\<rparr>]"
proof -
  have d: "draws_at demo_env demo_ml [0, 1] acc0 demo_world 0
     = [demo_draw 0 (1/4), demo_draw 1 (1/2), demo_draw 1 (3/4)]"
    "draws_at demo_env demo_ml [0, 1] acc0 demo_world 1
     = [demo_draw 1 1, demo_draw 1 (5/4), demo_draw 1 (5/4)]"
    using demo_inner_loss_draws
    unfolding inner_loss_draws_def demo_inner_loss_items inner_loss_world_def by simp_all
  have b: "baseline_at demo_env demo_ml [0, 1] acc0 demo_world 0 = 0"
    "baseline_at demo_env demo_ml [0, 1] acc0 demo_world 1 = 3/4"
    by (simp_all add: baseline_at_def demo_env_def demo_ml_def demo_world_def acc0_def
          numeral_3_eq_3 duplicate_def)
  have g: "group_at demo_env demo_ml [0, 1] acc0 demo_world 0
      = \<lparr>eg_item = 0, eg_baseline = 0, eg_kept = [demo_draw 0 (1/4), demo_draw 1 (1/2)]\<rparr>"
    "group_at demo_env demo_ml [0, 1] acc0 demo_world 1
      = \<lparr>eg_item = 1, eg_baseline = 3/4, eg_kept = [demo_draw 1 1]\<rparr>"
    unfolding group_at_def d b by (simp_all add: demo_draw_def)
  have u: "[0..<length [0 :: nat, 1]] = [0, 1]" by (simp add: upt_rec)
  show ?thesis
    unfolding inner_loss_groups_def demo_inner_loss_items inner_loss_world_def run_groups_def u
    by (simp only: list.map g option.case)
qed

section \<open>inner_loss: the samples kept\<close>

text \<open>
  Claim C4. Let \<open>inner_loss\<close> return. For every example of the task, the samples kept are
  the decodes of the example's sampling loop whose token sequence is not that of a sample
  kept before for that example: no token sequence is kept twice, and every decoded token
  sequence is kept once. The lists from which the loss is computed hold the logits, the
  tokens and one advantage per token of the kept samples only, so that the loss (the float
  \<open>0.0\<close> if nothing was kept) counts no duplicate; \<open>total_samples\<close> is the number of decodes,
  and the returned \<open>skipped_samples\<close> is the number of decodes that were not kept, summed
  over the examples.
\<close>

theorem duplicate_samples_skipped:
  assumes "inner_loss env ml task weights w = Inr (l, n_total, n_skipped, w')"
  shows "length (inner_loss_groups env ml task weights w) = length (inner_loss_items env task)
     \<and> (\<forall>j < length (inner_loss_items env task).
           length (inner_loss_draws env ml task weights w j) = self_samples ml
         \<and> eg_kept (inner_loss_groups env ml task weights w ! j)
             = first_samples [] (inner_loss_draws env ml task weights w j)
         \<and> distinct (map ks_actions (eg_kept (inner_loss_groups env ml task weights w ! j)))
         \<and> set (map ks_actions (eg_kept (inner_loss_groups env ml task weights w ! j)))
             = set (map ks_actions (inner_loss_draws env ml task weights w j)))
     \<and> net_policies (inner_loss_acc env ml task weights w)
         = map ks_logits (inner_loss_kept env ml task weights w)
     \<and> net_actions (inner_loss_acc env ml task weights w)
         = concat (map ks_actions (inner_loss_kept env ml task weights w))
     \<and> net_advantages (inner_loss_acc env ml task weights w)
         = concat (map (\<lambda>p. replicate (length (ks_actions (snd p))) (ks_reward (snd p) - fst p))
                     (flat_kept (inner_loss_groups env ml task weights w)))
     \<and> n_total = self_samples ml * length (inner_loss_items env task)
     \<and> n_skipped = (\<Sum>g \<leftarrow> inner_loss_groups env ml task weights w.
                       self_samples ml - length (eg_kept g))
     \<and> (inner_loss_kept env ml task weights w = [] \<longrightarrow> l = PyFloat 0)
     \<and> (inner_loss_kept env ml task weights w \<noteq> [] \<longrightarrow>
          is_tensor l
        \<and> loss_value l = - (token_weighted (inner_loss_acc env ml task weights w)
                              / real (length (net_actions (inner_loss_acc env ml task weights w)))))"
proof -
  define G where "G = inner_loss_groups env ml task weights w"
  define A where "A = inner_loss_acc env ml task weights w"
  define K where "K = inner_loss_kept env ml task weights w"
  define items where "items = inner_loss_items env task"
  define W where "W = inner_loss_world env weights w"
  have Gr: "G = run_groups env ml items acc0 W"
    by (simp add: G_def inner_loss_groups_def items_def W_def)
  have c1: "length G = length items" by (simp add: Gr length_run_groups)
  have c2: "\<forall>j < length items.
           length (inner_loss_draws env ml task weights w j) = self_samples ml
         \<and> eg_kept (G ! j) = first_samples [] (inner_loss_draws env ml task weights w j)
         \<and> distinct (map ks_actions (eg_kept (G ! j)))
         \<and> set (map ks_actions (eg_kept (G ! j)))
             = set (map ks_actions (inner_loss_draws env ml task weights w j))"
  proof (intro allI impI)
    fix j assume j: "j < length items"
    define D where "D = inner_loss_draws env ml task weights w j"
    have Dd: "D = draws_at env ml items acc0 W j"
      by (simp add: D_def inner_loss_draws_def items_def W_def)
    have k: "eg_kept (G ! j) = first_samples [] D"
      by (simp add: Gr run_groups_nth[OF j] eg_kept_group_at Dd)
    have d: "distinct (map ks_actions (first_samples [] D))"
      using distinct_first_samples[of "[]" D] by simp
    have s: "set (map ks_actions (first_samples [] D)) = set (map ks_actions D)"
      using set_first_samples[of "[]" D] by simp
    show "length D = self_samples ml
         \<and> eg_kept (G ! j) = first_samples [] D
         \<and> distinct (map ks_actions (eg_kept (G ! j)))
         \<and> set (map ks_actions (eg_kept (G ! j))) = set (map ks_actions D)"
      unfolding k using d s by (simp add: Dd length_draws_at)
  qed
  from inner_loss_acc_groups[of env ml task weights w]
  have pol: "net_policies A = map ks_logits K"
    and act: "net_actions A = concat (map ks_actions K)"
    and adv: "net_advantages A
      = concat (map (\<lambda>p. replicate (length (ks_actions (snd p))) (advantage (fst p) (snd p)))
                  (flat_kept G))"
    and tot: "total_samples A = self_samples ml * length items"
    and skp: "skipped_samples A + length K = self_samples ml * length items"
    unfolding A_def K_def G_def items_def by blast+
  have Kf: "K = map snd (flat_kept G)"
    by (simp add: K_def inner_loss_kept_def G_def map_snd_flat_kept)
  have c5: "net_advantages A
      = concat (map (\<lambda>p. replicate (length (ks_actions (snd p))) (ks_reward (snd p) - fst p))
                  (flat_kept G))"
    by (simp add: adv advantage_def)
  from inner_loss_result[OF assms]
  have nt: "n_total = total_samples A" and ns: "n_skipped = skipped_samples A"
    and e: "net_policies A = [] \<longrightarrow> l = PyFloat 0"
    and ne: "net_policies A \<noteq> [] \<longrightarrow> net_actions A \<noteq> [] \<and> is_tensor l
        \<and> loss_value l = - (token_weighted A / real (length (net_actions A)))"
    unfolding A_def by blast+
  have c6: "n_total = self_samples ml * length items" using nt tot by simp
  have lenK: "length K = (\<Sum>g \<leftarrow> G. length (eg_kept g))"
    by (simp add: Kf length_flat_kept)
  have le: "\<forall>g \<in> set G. length (eg_kept g) \<le> self_samples ml"
    unfolding Gr by (rule run_groups_kept_le)
  from sum_list_diff[OF le] have "(\<Sum>g \<leftarrow> G. self_samples ml - length (eg_kept g)) + length K
      = self_samples ml * length items"
    by (simp add: lenK c1)
  with skp ns have c7: "n_skipped = (\<Sum>g \<leftarrow> G. self_samples ml - length (eg_kept g))" by simp
  have c8: "K = [] \<longrightarrow> l = PyFloat 0" using e pol by simp
  have c9: "K \<noteq> [] \<longrightarrow> is_tensor l
        \<and> loss_value l = - (token_weighted A / real (length (net_actions A)))"
    using ne pol by simp
  show ?thesis
    unfolding G_def [symmetric] A_def [symmetric] K_def [symmetric] items_def [symmetric]
    by (intro conjI c1 c2 pol act c5 c6 c7 c8 c9)
qed

theorem duplicate_samples_skipped_witness:
  "inner_loss demo_env demo_ml [0, 1] None demo_world
     = Inr (LossTensor (ln 2 / 3) demo_graph_all, 6, 3, demo_world\<lparr>ext := (6, 5)\<rparr>)
   \<and> map ks_actions (inner_loss_draws demo_env demo_ml [0, 1] None demo_world 0) = [[0], [1], [1]]
   \<and> map ks_actions (eg_kept (inner_loss_groups demo_env demo_ml [0, 1] None demo_world ! 0))
        = [[0], [1]]
   \<and> map ks_actions (inner_loss_draws demo_env demo_ml [0, 1] None demo_world 1) = [[1], [1], [1]]
   \<and> map ks_actions (eg_kept (inner_loss_groups demo_env demo_ml [0, 1] None demo_world ! 1))
        = [[1]]
   \<and> net_actions (inner_loss_acc demo_env demo_ml [0, 1] None demo_world) = [0, 1, 1]
   \<and> (6 :: nat) = self_samples demo_ml * length (inner_loss_items demo_env [0, 1])
   \<and> (3 :: nat) = (\<Sum>g \<leftarrow> inner_loss_groups demo_env demo_ml [0, 1] None demo_world.
                       self_samples demo_ml - length (eg_kept g))
   \<and> loss_value (LossTensor (ln 2 / 3) demo_graph_all :: real loss)
        = - (token_weighted (inner_loss_acc demo_env demo_ml [0, 1] None demo_world)
              / real (length (net_actions (inner_loss_acc demo_env demo_ml [0, 1] None demo_world))))"
proof -
  note t = duplicate_samples_skipped [OF demo_inner_loss]
  have j0: "0 < length (inner_loss_items demo_env [0, 1])"
    and j1: "1 < length (inner_loss_items demo_env [0, 1])"
    by (simp_all add: demo_inner_loss_items)
  from t j0 have k0: "eg_kept (inner_loss_groups demo_env demo_ml [0, 1] None demo_world ! 0)
      = first_samples [] (inner_loss_draws demo_env demo_ml [0, 1] None demo_world 0)"
    by blast
  from t j1 have k1: "eg_kept (inner_loss_groups demo_env demo_ml [0, 1] None demo_world ! 1)
      = first_samples [] (inner_loss_draws demo_env demo_ml [0, 1] None demo_world 1)"
    by blast
  have d0: "map ks_actions (inner_loss_draws demo_env demo_ml [0, 1] None demo_world 0)
      = [[0], [1], [1]]"
    and d1: "map ks_actions (inner_loss_draws demo_env demo_ml [0, 1] None demo_world 1)
      = [[1], [1], [1]]"
    unfolding demo_inner_loss_draws by (simp_all add: demo_draw_def)
  have e0: "map ks_actions (eg_kept (inner_loss_groups demo_env demo_ml [0, 1] None demo_world ! 0))
        = [[0], [1]]"
    unfolding k0 demo_inner_loss_draws by (simp add: demo_draw_def)
  have e1: "map ks_actions (eg_kept (inner_loss_groups demo_env demo_ml [0, 1] None demo_world ! 1))
        = [[1]]"
    unfolding k1 demo_inner_loss_draws by (simp add: demo_draw_def)
  from t have act: "net_actions (inner_loss_acc demo_env demo_ml [0, 1] None demo_world)
      = concat (map ks_actions (inner_loss_kept demo_env demo_ml [0, 1] None demo_world))"
    by blast
  have kept: "inner_loss_kept demo_env demo_ml [0, 1] None demo_world
      = [demo_draw 0 (1/4), demo_draw 1 (1/2), demo_draw 1 1]"
    unfolding inner_loss_kept_def demo_inner_loss_groups by simp
  have a: "net_actions (inner_loss_acc demo_env demo_ml [0, 1] None demo_world) = [0, 1, 1]"
    unfolding act kept by (simp add: demo_draw_def)
  from t have tot: "(6 :: nat) = self_samples demo_ml * length (inner_loss_items demo_env [0, 1])"
    and skp: "(3 :: nat) = (\<Sum>g \<leftarrow> inner_loss_groups demo_env demo_ml [0, 1] None demo_world.
                       self_samples demo_ml - length (eg_kept g))"
    by blast+
  have kne: "inner_loss_kept demo_env demo_ml [0, 1] None demo_world \<noteq> []"
    unfolding kept by simp
  with t have val: "loss_value (LossTensor (ln 2 / 3) demo_graph_all :: real loss)
        = - (token_weighted (inner_loss_acc demo_env demo_ml [0, 1] None demo_world)
              / real (length (net_actions (inner_loss_acc demo_env demo_ml [0, 1] None demo_world))))"
    by blast
  from demo_inner_loss d0 e0 d1 e1 a tot skp val show ?thesis by blast
qed

section \<open>inner_loss: the advantage-weighted loss\<close>

text \<open>
  Claim C8. Let \<open>inner_loss\<close> return a loss tensor, the decoder returning one logits row
  per token. The collected lists are those of the kept samples of the run, example by
  example; every token of a kept sample has the same advantage, the sample's reward minus
  the baseline reward of its example; and the value of the loss is the negated mean, over
  all collected tokens, of the advantage times the log-softmax of the token's logits row at
  the token's index, which is also the negated sum over examples, kept samples and tokens
  divided by the number of tokens.
\<close>

theorem inner_loss_advantage_weighted:
  assumes "inner_loss env ml task weights w = Inr (LossTensor v g, n_total, n_skipped, w')"
    and "\<forall>itm w0. length (fst (fst (decode_chain_sampling env itm w0)))
                   = length (snd (fst (decode_chain_sampling env itm w0)))"
  shows "map eg_item (inner_loss_groups env ml task weights w) = inner_loss_items env task
     \<and> net_policies (inner_loss_acc env ml task weights w)
         = map (\<lambda>p. ks_logits (snd p)) (flat_kept (inner_loss_groups env ml task weights w))
     \<and> net_actions (inner_loss_acc env ml task weights w)
         = concat (map (\<lambda>p. ks_actions (snd p))
                     (flat_kept (inner_loss_groups env ml task weights w)))
     \<and> net_advantages (inner_loss_acc env ml task weights w)
         = concat (map (\<lambda>p. replicate (length (ks_actions (snd p))) (ks_reward (snd p) - fst p))
                     (flat_kept (inner_loss_groups env ml task weights w)))
     \<and> net_actions (inner_loss_acc env ml task weights w) \<noteq> []
     \<and> v = - (token_weighted (inner_loss_acc env ml task weights w)
               / real (length (net_actions (inner_loss_acc env ml task weights w))))
     \<and> v = - (sum_list (map group_weighted (inner_loss_groups env ml task weights w))
               / real (sum_list (map group_tokens (inner_loss_groups env ml task weights w))))"
proof -
  define G where "G = inner_loss_groups env ml task weights w"
  define A where "A = inner_loss_acc env ml task weights w"
  define items where "items = inner_loss_items env task"
  define W where "W = inner_loss_world env weights w"
  have Gr: "G = run_groups env ml items acc0 W"
    by (simp add: G_def inner_loss_groups_def items_def W_def)
  have c1: "map eg_item G = items"
  proof -
    have "map eg_item G = map ((!) items) [0..<length items]"
      by (simp add: Gr run_groups_def group_at_def comp_def del: upt_Suc)
    then show ?thesis by (simp add: map_nth)
  qed
  from inner_loss_acc_groups[of env ml task weights w]
  have pol0: "net_policies A = map ks_logits (inner_loss_kept env ml task weights w)"
    and act0: "net_actions A = concat (map ks_actions (inner_loss_kept env ml task weights w))"
    and adv: "net_advantages A
      = concat (map (\<lambda>p. replicate (length (ks_actions (snd p))) (advantage (fst p) (snd p)))
                  (flat_kept G))"
    unfolding A_def G_def by blast+
  have Kf: "inner_loss_kept env ml task weights w = map snd (flat_kept G)"
    by (simp add: inner_loss_kept_def G_def map_snd_flat_kept)
  have pol: "net_policies A = map (\<lambda>p. ks_logits (snd p)) (flat_kept G)"
    by (simp add: pol0 Kf comp_def)
  have act: "net_actions A = concat (map (\<lambda>p. ks_actions (snd p)) (flat_kept G))"
    by (simp add: act0 Kf comp_def)
  have adv': "net_advantages A
      = concat (map (\<lambda>p. replicate (length (ks_actions (snd p))) (ks_reward (snd p) - fst p))
                  (flat_kept G))"
    by (simp add: adv advantage_def)
  from inner_loss_result[OF assms(1)]
  have r: "(net_policies A = [] \<longrightarrow> LossTensor v g = PyFloat 0)"
    "(net_policies A \<noteq> [] \<longrightarrow> net_actions A \<noteq> []
        \<and> loss_value (LossTensor v g) = - (token_weighted A / real (length (net_actions A))))"
    unfolding A_def by blast+
  from r(1) have ne: "net_policies A \<noteq> []" by auto
  with r(2) have n0: "net_actions A \<noteq> []"
    and val: "v = - (token_weighted A / real (length (net_actions A)))"
    by simp_all
  have aligned: "\<forall>p \<in> set (flat_kept G). length (ks_logits (snd p)) = length (ks_actions (snd p))"
    unfolding Gr by (rule run_groups_aligned[OF assms(2)])
  have tokens: "sum_list (map group_tokens G) = length (net_actions A)"
    by (simp add: group_tokens_flat act)
  have num: "token_weighted A = sum_list (map group_weighted G)"
    unfolding token_weighted_def pol act adv group_weighted_flat by (rule weighted_flat[OF aligned])
  have v2: "v = - (sum_list (map group_weighted G) / real (sum_list (map group_tokens G)))"
    using val by (simp only: num tokens)
  show ?thesis
    unfolding G_def [symmetric] A_def [symmetric] items_def [symmetric]
    by (intro conjI c1 pol act adv' n0 val v2)
qed

theorem inner_loss_advantage_weighted_witness:
  "inner_loss demo_env demo_ml [0, 1] None demo_world
     = Inr (LossTensor (ln 2 / 3) demo_graph_all, 6, 3, demo_world\<lparr>ext := (6, 5)\<rparr>)
   \<and> inner_loss_groups demo_env demo_ml [0, 1] None demo_world
     = [\<lparr>eg_item = 0, eg_baseline = 0, eg_kept = [demo_draw 0 (1/4), demo_draw 1 (1/2)]\<rparr>,
        \<lparr>eg_item = 1, eg_baseline = 3/4, eg_kept = [demo_draw 1 1]\<rparr>]
   \<and> net_advantages (inner_loss_acc demo_env demo_ml [0, 1] None demo_world) = [1/4, 1/2, 1/4]
   \<and> net_actions (inner_loss_acc demo_env demo_ml [0, 1] None demo_world) = [0, 1, 1]
   \<and> ln 2 / 3 = - (token_weighted (inner_loss_acc demo_env demo_ml [0, 1] None demo_world)
               / real (length (net_actions (inner_loss_acc demo_env demo_ml [0, 1] None demo_world))))
   \<and> ln 2 / 3
       = - (sum_list (map group_weighted (inner_loss_groups demo_env demo_ml [0, 1] None demo_world))
            / real (sum_list (map group_tokens
                       (inner_loss_groups demo_env demo_ml [0, 1] None demo_world))))"
proof -
  have contract: "\<forall>itm w0. length (fst (fst (decode_chain_sampling demo_env itm w0)))
                   = length (snd (fst (decode_chain_sampling demo_env itm w0)))"
    by (simp add: demo_env_def)
  note t = inner_loss_advantage_weighted [OF demo_inner_loss contract]
  from t have adv: "net_advantages (inner_loss_acc demo_env demo_ml [0, 1] None demo_world)
         = concat (map (\<lambda>p. replicate (length (ks_actions (snd p))) (ks_reward (snd p) - fst p))
                     (flat_kept (inner_loss_groups demo_env demo_ml [0, 1] None demo_world)))"
    and act: "net_actions (inner_loss_acc demo_env demo_ml [0, 1] None demo_world)
         = concat (map (\<lambda>p. ks_actions (snd p))
                     (flat_kept (inner_loss_groups demo_env demo_ml [0, 1] None demo_world)))"
    and v1: "ln 2 / 3 = - (token_weighted (inner_loss_acc demo_env demo_ml [0, 1] None demo_world)
               / real (length (net_actions (inner_loss_acc demo_env demo_ml [0, 1] None demo_world))))"
    and v2: "ln 2 / 3
       = - (sum_list (map group_weighted (inner_loss_groups demo_env demo_ml [0, 1] None demo_world))
            / real (sum_list (map group_tokens
                       (inner_loss_groups demo_env demo_ml [0, 1] None demo_world))))"
    by blast+
  have a1: "net_advantages (inner_loss_acc demo_env demo_ml [0, 1] None demo_world) = [1/4, 1/2, 1/4]"
    unfolding adv demo_inner_loss_groups by (simp add: flat_kept_def demo_draw_def)
  have a2: "net_actions (inner_loss_acc demo_env demo_ml [0, 1] None demo_world) = [0, 1, 1]"
    unfolding act demo_inner_loss_groups by (simp add: flat_kept_def demo_draw_def)
  from demo_inner_loss demo_inner_loss_groups a1 a2 v1 v2 show ?thesis by blast
qed

section \<open>inner_loss: no kept sample\<close>

lemma example_loop_no_samples:
  "self_samples ml = 0 \<Longrightarrow> net_policies a = [] \<Longrightarrow>
   net_policies (fst (example_loop env ml items a w)) = []
   \<and> total_samples (fst (example_loop env ml items a w)) = total_samples a
   \<and> skipped_samples (fst (example_loop env ml items a w)) = skipped_samples a"
proof (induction items arbitrary: a w)
  case Nil
  then show ?case by simp
next
  case (Cons itm items)
  show ?case
    using Cons.prems Cons.IH
    by (cases "decode_chain_argmax env itm w"; cases "random_random env (ext w)") simp
qed

lemma inner_loss_no_samples:
  assumes "self_samples ml = 0"
  shows "\<exists>w'. inner_loss env ml task weights w = Inr (PyFloat 0, 0, 0, w')
           \<and> last (log_info w') = ''The net_policies is empty!''"
proof -
  define W where "W = (case weights of None \<Rightarrow> w | Some ws \<Rightarrow> insert_new_parameter env ws True w)"
  obtain a w2 where el: "example_loop env ml (pack_batch_no_out env [task]) acc0 W = (a, w2)"
    by (metis prod.exhaust)
  from example_loop_no_samples[OF assms, of acc0 env "pack_batch_no_out env [task]" W] el
  have "net_policies a = []" "total_samples a = 0" "skipped_samples a = 0"
    by (simp_all add: acc0_def)
  then show ?thesis
    using el by (simp add: inner_loss_unfold W_def [symmetric])
qed

lemma update_params_float:
  "update_params env (PyFloat r) names_weights_copy step_size first_order w = Inl TypeError"
  by (simp add: update_params_def autograd_grad_def)

lemma mean_stack_float: "PyFloat r \<in> set task_losses \<Longrightarrow> mean_stack task_losses = Inl TypeError"
proof -
  assume a: "PyFloat r \<in> set task_losses"
  then have "\<not> list_all is_tensor task_losses"
    by (metis is_tensor.simps(1) list_all_iff)
  moreover from a have "task_losses \<noteq> []" by auto
  ultimately show ?thesis by (simp add: mean_stack_def)
qed

lemma meta_update_float: "meta_update env (PyFloat r) w = Inl AttributeError"
  by (simp add: meta_update_def)

text \<open>
  Claim C5 at the failing input, a learner with \<open>samples = 0\<close>: \<open>inner_loss\<close> returns the
  Python float \<open>0.0\<close> with the log notice and without an exception, but the gradient step
  on that loss is no no-op: \<open>update_params\<close> raises a TypeError, and so does \<open>sample\<close>.
\<close>

theorem empty_policies_break_sample:
  "inner_loss demo_env (demo_ml\<lparr>self_samples := 0\<rparr>) [0, 1] (Some [(''a'', 0), (''b'', 1)]) demo_world
     = Inr (PyFloat 0, 0, 0,
            demo_world\<lparr>log_info := [''The net_policies is empty!''], ext := (0, 2)\<rparr>)
   \<and> update_params demo_env (PyFloat 0) [(''a'', 0), (''b'', 1)] (1 / 2) False
        (demo_world\<lparr>log_info := [''The net_policies is empty!''], ext := (0, 2)\<rparr>)
     = Inl TypeError
   \<and> sample demo_env (demo_ml\<lparr>self_samples := 0\<rparr>) [[0, 1]] demo_world = Inl TypeError"
  by (simp add: inner_loss_unfold demo_env_def demo_ml_def demo_world_def acc0_def
        update_params_def autograd_grad_def sample_def and_then_def fetch_def tensor_to_def
        demo_tensor_def)

section \<open>sample: two inner steps per task, the mean meta-loss, the counts\<close>

lemma sample_tasks_adapt_all:
  "sample_tasks env ml tasks task_losses n_total n_skipped w =
     and_then (adapt_all env ml tasks w) (\<lambda>(rs, w').
       Inr (task_losses @ map tr_meta_loss rs,
            n_total + (\<Sum>r \<leftarrow> rs. fst (tr_counts1 r) + fst (tr_counts2 r)),
            n_skipped + (\<Sum>r \<leftarrow> rs. snd (tr_counts1 r) + snd (tr_counts2 r)),
            w'))"
proof (induction tasks arbitrary: task_losses n_total n_skipped w)
  case Nil
  then show ?case by (simp add: and_then_def)
next
  case (Cons task tasks)
  show ?case
    by (simp add: Cons.IH and_then_def two_step_adaptation_def inner_step_def
          split: sum.splits prod.splits)
qed

lemma adapt_all_length: "adapt_all env ml tasks w = Inr (rs, w') \<Longrightarrow> length rs = length tasks"
proof (induction tasks arbitrary: rs w)
  case Nil
  then show ?case by simp
next
  case (Cons task tasks)
  then show ?case
    by (auto simp: and_then_def split: sum.splits prod.splits)
qed

lemma sample_adapt_all:
  assumes "sample env ml tasks w = Inr (meta_losses, n_total, n_skipped, w')"
  shows "\<exists>rs. adapt_all env ml tasks (w\<lparr>ext := net_zero_grad env None (ext w)\<rparr>) = Inr (rs, w')
     \<and> length rs = length tasks
     \<and> mean_stack (map tr_meta_loss rs) = Inr meta_losses
     \<and> n_total = (\<Sum>r \<leftarrow> rs. fst (tr_counts1 r) + fst (tr_counts2 r))
     \<and> n_skipped = (\<Sum>r \<leftarrow> rs. snd (tr_counts1 r) + snd (tr_counts2 r))"
proof -
  define w0 where "w0 = w\<lparr>ext := net_zero_grad env None (ext w)\<rparr>"
  from assms obtain rs where rs: "adapt_all env ml tasks w0 = Inr (rs, w')"
    and ms: "mean_stack (map tr_meta_loss rs) = Inr meta_losses"
    and t: "n_total = (\<Sum>r \<leftarrow> rs. fst (tr_counts1 r) + fst (tr_counts2 r))"
    and s: "n_skipped = (\<Sum>r \<leftarrow> rs. snd (tr_counts1 r) + snd (tr_counts2 r))"
    unfolding sample_def w0_def [symmetric] sample_tasks_adapt_all
    by (auto simp: and_then_def split: sum.splits prod.splits)
  from rs ms t s adapt_all_length[OF rs] show ?thesis
    unfolding w0_def by blast
qed

lemma mean_stack_Inr:
  assumes "mean_stack task_losses = Inr m"
  shows "task_losses \<noteq> [] \<and> list_all is_tensor task_losses \<and> is_tensor m
     \<and> loss_value m = sum_list (map loss_value task_losses) / real (length task_losses)"
  using assms by (auto simp: mean_stack_def split: if_splits)

text \<open>
  Claim C1. When \<open>sample\<close> returns, its loop has run, for each task of the batch in turn,
  the adaptation of the spec: the inner loss under the weights derived from the shared
  parameters, one inner-loop update, the inner loss under the updated weights, a second
  update, and the meta-loss under the twice-updated weights. The loss returned is the mean
  of the tasks' meta-losses, and \<open>meta_update\<close> on it clears the gradients, back-propagates
  the mean and applies one step of the optimizer.
\<close>

theorem sample_two_step_mean:
  assumes "sample env ml tasks w = Inr (meta_losses, n_total, n_skipped, w')"
  shows "\<exists>rs. adapt_all env ml tasks (w\<lparr>ext := net_zero_grad env None (ext w)\<rparr>) = Inr (rs, w')
     \<and> length rs = length tasks \<and> tasks \<noteq> []
     \<and> loss_value meta_losses
          = sum_list (map (\<lambda>r. loss_value (tr_meta_loss r)) rs) / real (length tasks)
     \<and> meta_update env meta_losses w'
          = Inr (optimizer_step env
                   (w'\<lparr>ext := loss_backward env (loss_grad meta_losses)
                                 (optimizer_zero_grad env (ext w'))\<rparr>))"
proof -
  from sample_adapt_all[OF assms] obtain rs where
    rs: "adapt_all env ml tasks (w\<lparr>ext := net_zero_grad env None (ext w)\<rparr>) = Inr (rs, w')"
    and len: "length rs = length tasks"
    and ms: "mean_stack (map tr_meta_loss rs) = Inr meta_losses"
    by blast
  from mean_stack_Inr[OF ms] have ne: "rs \<noteq> []" and tens: "is_tensor meta_losses"
    and val: "loss_value meta_losses
       = sum_list (map loss_value (map tr_meta_loss rs)) / real (length (map tr_meta_loss rs))"
    by auto
  have tne: "tasks \<noteq> []" using ne len by auto
  have val': "loss_value meta_losses
          = sum_list (map (\<lambda>r. loss_value (tr_meta_loss r)) rs) / real (length tasks)"
    using val by (simp add: len comp_def)
  have mu: "meta_update env meta_losses w'
          = Inr (optimizer_step env
                   (w'\<lparr>ext := loss_backward env (loss_grad meta_losses)
                                 (optimizer_zero_grad env (ext w'))\<rparr>))"
    using tens by (cases meta_losses) (simp_all add: meta_update_def)
  from rs len tne val' mu show ?thesis by blast
qed

lemma inner_loss_total:
  assumes "inner_loss env ml task weights w = Inr (l, n_total, n_skipped, w')"
  shows "n_total = self_samples ml * length (pack_batch_no_out env [task])"
proof -
  define W where "W = (case weights of None \<Rightarrow> w | Some ws \<Rightarrow> insert_new_parameter env ws True w)"
  obtain a w2 where el: "example_loop env ml (pack_batch_no_out env [task]) acc0 W = (a, w2)"
    by (metis prod.exhaust)
  from example_loop_run_groups[OF el]
  have "total_samples a = total_samples acc0 + self_samples ml * length (pack_batch_no_out env [task])"
    by blast
  then have ta: "total_samples a = self_samples ml * length (pack_batch_no_out env [task])"
    by (simp add: acc0_def)
  from assms el have "n_total = total_samples a"
    by (auto simp: inner_loss_unfold W_def [symmetric] split: if_splits sum.splits)
  with ta show ?thesis by simp
qed

lemma two_step_adaptation_totals:
  assumes "two_step_adaptation env ml task w = Inr (r, w')"
  shows "fst (tr_counts1 r) = self_samples ml * length (pack_batch_no_out env [task])
       \<and> fst (tr_counts2 r) = self_samples ml * length (pack_batch_no_out env [task])
       \<and> fst (tr_counts3 r) = self_samples ml * length (pack_batch_no_out env [task])"
  using assms
  by (auto simp: two_step_adaptation_def inner_step_def and_then_def
        split: sum.splits prod.splits dest!: inner_loss_total)

lemma adapt_all_totals:
  assumes "adapt_all env ml tasks w = Inr (rs, w')"
  shows "(\<Sum>r \<leftarrow> rs. fst (tr_counts1 r) + fst (tr_counts2 r))
           = 2 * self_samples ml * (\<Sum>task \<leftarrow> tasks. length (pack_batch_no_out env [task]))
       \<and> (\<Sum>r \<leftarrow> rs. fst (tr_counts3 r))
           = self_samples ml * (\<Sum>task \<leftarrow> tasks. length (pack_batch_no_out env [task]))"
  using assms
proof (induction tasks arbitrary: rs w)
  case Nil
  then show ?case by simp
next
  case (Cons task tasks)
  from Cons.prems obtain r w1 rs' where
    r: "two_step_adaptation env ml task w = Inr (r, w1)"
    and rest: "adapt_all env ml tasks w1 = Inr (rs', w')"
    and rs: "rs = r # rs'"
    by (auto simp: and_then_def split: sum.splits prod.splits)
  from two_step_adaptation_totals[OF r] Cons.IH[OF rest] show ?case
    by (simp add: rs algebra_simps)
qed

text \<open>
  Claim C10. The \<open>total_samples\<close> and \<open>skipped_samples\<close> that \<open>sample\<close> returns are the sums,
  over the tasks, of the counts of the first and the second evaluation of \<open>inner_loss\<close>
  only. Every evaluation draws \<open>samples\<close> decodes per example, so the total returned is
  twice that number; the decodes of the third evaluation, as many again, are not in it.
\<close>

theorem sample_counts_pre_update_only:
  assumes "sample env ml tasks w = Inr (meta_losses, n_total, n_skipped, w')"
  shows "\<exists>rs. adapt_all env ml tasks (w\<lparr>ext := net_zero_grad env None (ext w)\<rparr>) = Inr (rs, w')
     \<and> n_total = (\<Sum>r \<leftarrow> rs. fst (tr_counts1 r) + fst (tr_counts2 r))
     \<and> n_skipped = (\<Sum>r \<leftarrow> rs. snd (tr_counts1 r) + snd (tr_counts2 r))
     \<and> n_total = 2 * self_samples ml * (\<Sum>task \<leftarrow> tasks. length (pack_batch_no_out env [task]))
     \<and> (\<Sum>r \<leftarrow> rs. fst (tr_counts3 r))
          = self_samples ml * (\<Sum>task \<leftarrow> tasks. length (pack_batch_no_out env [task]))"
proof -
  from sample_adapt_all[OF assms] obtain rs where
    rs: "adapt_all env ml tasks (w\<lparr>ext := net_zero_grad env None (ext w)\<rparr>) = Inr (rs, w')"
    and t: "n_total = (\<Sum>r \<leftarrow> rs. fst (tr_counts1 r) + fst (tr_counts2 r))"
    and s: "n_skipped = (\<Sum>r \<leftarrow> rs. snd (tr_counts1 r) + snd (tr_counts2 r))"
    by blast
  from adapt_all_totals[OF rs] t
  have t2: "n_total = 2 * self_samples ml * (\<Sum>task \<leftarrow> tasks. length (pack_batch_no_out env [task]))"
    and t3: "(\<Sum>r \<leftarrow> rs. fst (tr_counts3 r))
          = self_samples ml * (\<Sum>task \<leftarrow> tasks. length (pack_batch_no_out env [task]))"
    by simp_all
  from rs t s t2 t3 show ?thesis by blast
qed

lemma demo_sample:
  "sample demo_env demo_ml [[0, 1]] demo_world
     = Inr (LossTensor (ln 2 / 4) demo_graph6, 12, 7, demo_world_after)"
  by (simp add: sample_def and_then_def inner_loss_unfold demo_env_def demo_ml_def
        demo_world_def acc0_def numeral_3_eq_3 duplicate_def policy_loss_def log_softmax_def
        Let_def fetch_def tensor_to_def demo_tensor_def update_params_def autograd_grad_def
        alloc_def mean_stack_def demo_world_after_def demo_updated_def demo_graph6_def
        fun_eq_iff)

theorem sample_two_step_mean_witness:
  "sample demo_env demo_ml [[0, 1]] demo_world
     = Inr (LossTensor (ln 2 / 4) demo_graph6, 12, 7, demo_world_after)
   \<and> (\<exists>rs. adapt_all demo_env demo_ml [[0, 1]]
              (demo_world\<lparr>ext := net_zero_grad demo_env None (ext demo_world)\<rparr>)
            = Inr (rs, demo_world_after)
     \<and> length rs = length [[0, 1 :: nat]] \<and> [[0, 1 :: nat]] \<noteq> []
     \<and> loss_value (LossTensor (ln 2 / 4) demo_graph6)
          = sum_list (map (\<lambda>r. loss_value (tr_meta_loss r)) rs) / real (length [[0, 1 :: nat]])
     \<and> meta_update demo_env (LossTensor (ln 2 / 4) demo_graph6) demo_world_after
          = Inr (optimizer_step demo_env
                   (demo_world_after\<lparr>ext := loss_backward demo_env
                        (loss_grad (LossTensor (ln 2 / 4) demo_graph6))
                        (optimizer_zero_grad demo_env (ext demo_world_after))\<rparr>)))"
  using sample_two_step_mean [OF demo_sample] demo_sample by (rule conjI[rotated])

theorem sample_counts_pre_update_only_witness:
  "sample demo_env demo_ml [[0, 1]] demo_world
     = Inr (LossTensor (ln 2 / 4) demo_graph6, 12, 7, demo_world_after)
   \<and> (\<exists>rs. adapt_all demo_env demo_ml [[0, 1]]
              (demo_world\<lparr>ext := net_zero_grad demo_env None (ext demo_world)\<rparr>)
            = Inr (rs, demo_world_after)
     \<and> 12 = (\<Sum>r \<leftarrow> rs. fst (tr_counts1 r) + fst (tr_counts2 r))
     \<and> 7 = (\<Sum>r \<leftarrow> rs. snd (tr_counts1 r) + snd (tr_counts2 r))
     \<and> 12 = 2 * self_samples demo_ml
              * (\<Sum>task \<leftarrow> [[0, 1]]. length (pack_batch_no_out demo_env [task]))
     \<and> (\<Sum>r \<leftarrow> rs. fst (tr_counts3 r))
          = self_samples demo_ml * (\<Sum>task \<leftarrow> [[0, 1]]. length (pack_batch_no_out demo_env [task])))"
  using sample_counts_pre_update_only [OF demo_sample] demo_sample by (rule conjI[rotated])

section \<open>sample: the snapshots of the weights\<close>



























end
